theory Spec2Isabelle
  imports Complex_Main
begin

section \<open>JavaScript values shared by the frontend modules\<close>

text \<open>
  A thrown JavaScript error: the two kinds the frontend meets, each with its message.
  A promise that settles is a value of \<open>error + 'a\<close>: \<open>Inl\<close> is a rejection, \<open>Inr\<close> a
  fulfilment.
\<close>

datatype error = Error string | TypeError string

fun message :: "error \<Rightarrow> string" where
  "message (Error m) = m"
| "message (TypeError m) = m"

text \<open>
  Truthiness of a value that is a string, \<open>null\<close> or \<open>undefined\<close> (\<open>None\<close>): the empty
  string is falsy.
\<close>

definition truthy :: "string option \<Rightarrow> bool" where
  "truthy v = (case v of None \<Rightarrow> False | Some s \<Rightarrow> s \<noteq> [])"

text \<open>Decimal text of a number inside a template literal.\<close>

definition digit_char :: "nat \<Rightarrow> char" where
  "digit_char d = char_of (48 + d)"

function string_of_nat :: "nat \<Rightarrow> string" where
  "string_of_nat n =
     (if n < 10 then [digit_char n] else string_of_nat (n div 10) @ [digit_char (n mod 10)])"
  by pat_completeness auto
termination
  by (relation "measure id") auto

section \<open>The API client: \<open>frontend/src/api.js\<close>\<close>

text \<open>
  \<open>localStorage\<close> is a map from keys to strings; \<open>getItem\<close> of a missing key is
  \<open>null\<close>.
\<close>

type_synonym storage = "string \<rightharpoonup> string"

definition BASE :: string where
  "BASE = ''/api''"

definition getSessionId :: "storage \<Rightarrow> string option" where
  "getSessionId localStorage = localStorage ''hydra_session_id''"

definition setSessionId :: "string \<Rightarrow> storage \<Rightarrow> storage" where
  "setSessionId sessionId localStorage = localStorage(''hydra_session_id'' \<mapsto> sessionId)"

record upload_file =
  file_name :: string
  file_content :: string

text \<open>
  A request body: the \<open>JSON.stringify\<close> of an object literal, given by its fields, or a
  \<open>FormData\<close> with its appended parts.
\<close>

datatype body = JsonObject "(string \<times> string) list" | FormData "(string \<times> upload_file) list"

text \<open>
  The \<open>options\<close> argument of \<open>fetchJson\<close>: an object that may carry \<open>method\<close>,
  \<open>body\<close> and \<open>headers\<close>. An object of headers is a map from header names to values.
\<close>

record options =
  opt_method :: "string option"
  opt_body :: "body option"
  opt_headers :: "(string \<rightharpoonup> string) option"

definition no_options :: options where
  "no_options = \<lparr>opt_method = None, opt_body = None, opt_headers = None\<rparr>"

text \<open>What \<open>fetch\<close> is called with: the URL and the init object.\<close>

record request =
  req_url :: string
  req_method :: "string option"
  req_headers :: "string \<rightharpoonup> string"
  req_credentials :: string
  req_body :: "body option"

text \<open>
  What \<open>fetch\<close> resolves to. \<open>res_headers_get\<close> is \<open>res.headers.get\<close> (\<open>None\<close> is
  \<open>null\<close>: no such header), \<open>res_json\<close> is the settled \<open>res.json()\<close>.
\<close>

record 'j response =
  res_headers_get :: "string \<Rightarrow> string option"
  res_ok :: bool
  res_status :: nat
  res_text :: string
  res_json :: "error + 'j"

text \<open>
  \<open>fetchJson\<close>, in two steps: the request it hands to \<open>fetch\<close>, and what it does with the
  settled \<open>fetch\<close>. The init object is \<open>{headers, credentials: 'include', ...options}\<close>:
  a \<open>headers\<close> key of \<open>options\<close> replaces the headers built before it.
\<close>

definition fetchJson_request :: "string \<Rightarrow> options \<Rightarrow> storage \<Rightarrow> request" where
  "fetchJson_request url options localStorage =
     (let sessionId = getSessionId localStorage;
          headers0 = [''Content-Type'' \<mapsto> ''application/json'']
                       ++ (case opt_headers options of None \<Rightarrow> Map.empty | Some h \<Rightarrow> h);
          headers = (if truthy sessionId then headers0(''X-Session-ID'' \<mapsto> the sessionId)
                     else headers0)
      in \<lparr>req_url = BASE @ url,
          req_method = opt_method options,
          req_headers = (case opt_headers options of None \<Rightarrow> headers | Some h \<Rightarrow> h),
          req_credentials = ''include'',
          req_body = opt_body options\<rparr>)"

definition save_response_session :: "'j response \<Rightarrow> storage \<Rightarrow> storage" where
  "save_response_session res localStorage =
     (let responseSessionId = res_headers_get res ''X-Session-ID''
      in if truthy responseSessionId then setSessionId (the responseSessionId) localStorage
         else localStorage)"

definition fetchJson ::
  "(request \<Rightarrow> error + 'j response) \<Rightarrow> string \<Rightarrow> options \<Rightarrow> storage \<Rightarrow> storage \<times> (error + 'j)"
where
  "fetchJson fetch url options localStorage =
     (case fetch (fetchJson_request url options localStorage) of
        Inl e \<Rightarrow> (localStorage, Inl e)
      | Inr res \<Rightarrow>
          (let localStorage' = save_response_session res localStorage
           in if \<not> res_ok res
              then (localStorage',
                    Inl (Error (''API error '' @ string_of_nat (res_status res) @ '': ''
                                  @ res_text res)))
              else (localStorage', res_json res)))"

text \<open>
  The two uploads build their own headers object, which starts empty, and raise the
  response text itself on a response that is not ok.
\<close>

definition uploadCsv_request :: "string \<Rightarrow> upload_file \<Rightarrow> storage \<Rightarrow> request" where
  "uploadCsv_request project f localStorage =
     (let form = FormData [(''file'', f)];
          sessionId = getSessionId localStorage;
          headers = (if truthy sessionId then [''X-Session-ID'' \<mapsto> the sessionId]
                     else Map.empty)
      in \<lparr>req_url = BASE @ ''/projects/'' @ project @ ''/upload-csv'',
          req_method = Some ''POST'',
          req_headers = headers,
          req_credentials = ''include'',
          req_body = Some form\<rparr>)"

definition uploadCsv ::
  "(request \<Rightarrow> error + 'j response) \<Rightarrow> string \<Rightarrow> upload_file \<Rightarrow> storage \<Rightarrow> storage \<times> (error + 'j)"
where
  "uploadCsv fetch project f localStorage =
     (case fetch (uploadCsv_request project f localStorage) of
        Inl e \<Rightarrow> (localStorage, Inl e)
      | Inr res \<Rightarrow>
          (let localStorage' = save_response_session res localStorage
           in if \<not> res_ok res then (localStorage', Inl (Error (res_text res)))
              else (localStorage', res_json res)))"

definition uploadXyz_request :: "string \<Rightarrow> upload_file \<Rightarrow> storage \<Rightarrow> request" where
  "uploadXyz_request project f localStorage =
     (let form = FormData [(''file'', f)];
          sessionId = getSessionId localStorage;
          headers = (if truthy sessionId then [''X-Session-ID'' \<mapsto> the sessionId]
                     else Map.empty)
      in \<lparr>req_url = BASE @ ''/projects/'' @ project @ ''/upload-xyz'',
          req_method = Some ''POST'',
          req_headers = headers,
          req_credentials = ''include'',
          req_body = Some form\<rparr>)"

definition uploadXyz ::
  "(request \<Rightarrow> error + 'j response) \<Rightarrow> string \<Rightarrow> upload_file \<Rightarrow> storage \<Rightarrow> storage \<times> (error + 'j)"
where
  "uploadXyz fetch project f localStorage =
     (case fetch (uploadXyz_request project f localStorage) of
        Inl e \<Rightarrow> (localStorage, Inl e)
      | Inr res \<Rightarrow>
          (let localStorage' = save_response_session res localStorage
           in if \<not> res_ok res then (localStorage', Inl (Error (res_text res)))
              else (localStorage', res_json res)))"

text \<open>
  The exported calls. Each is \<open>fetchJson\<close> at a fixed URL with a fixed options literal, or
  one of the two uploads; \<open>opts\<close> is the caller's object of overrides, by its fields.
\<close>

definition post :: "body option \<Rightarrow> options" where
  "post b = \<lparr>opt_method = Some ''POST'', opt_body = b, opt_headers = None\<rparr>"

datatype api_call =
    GetProjects
  | CreateProject string
  | UploadCsv string upload_file
  | UploadXyz string upload_file
  | SendChat string string
  | GetDescriptors string
  | GetCorrelation string
  | GetShifts string
  | GetStructures string
  | GetStructure string string
  | GetCharges string string
  | GetAdsorptionEnergies string
  | GetEnergyDecomposition string
  | GetCoverageP string "(string \<times> string) list"
  | GetCoverageT string "(string \<times> string) list"
  | GetT50 string "(string \<times> string) list"
  | CompareSystems string "(string \<times> string) list"
  | RunSymbolicRegression string
  | RunGP string
  | SuggestNext string
  | FeatureImportance string

datatype prepared = ViaFetchJson string options | ViaUploadCsv string upload_file | ViaUploadXyz string upload_file

fun prepare :: "api_call \<Rightarrow> prepared" where
  "prepare GetProjects = ViaFetchJson ''/projects'' no_options"
| "prepare (CreateProject name) =
     ViaFetchJson ''/projects'' (post (Some (JsonObject [(''name'', name)])))"
| "prepare (UploadCsv project f) = ViaUploadCsv project f"
| "prepare (UploadXyz project f) = ViaUploadXyz project f"
| "prepare (SendChat query project) =
     ViaFetchJson ''/chat'' (post (Some (JsonObject [(''query'', query), (''project'', project)])))"
| "prepare (GetDescriptors project) =
     ViaFetchJson (''/data/'' @ project @ ''/descriptors'') no_options"
| "prepare (GetCorrelation project) =
     ViaFetchJson (''/data/'' @ project @ ''/correlation'') no_options"
| "prepare (GetShifts project) = ViaFetchJson (''/data/'' @ project @ ''/shifts'') no_options"
| "prepare (GetStructures project) =
     ViaFetchJson (''/data/'' @ project @ ''/structures'') no_options"
| "prepare (GetStructure project label) =
     ViaFetchJson (''/data/'' @ project @ ''/structure/'' @ label) no_options"
| "prepare (GetCharges project label) =
     ViaFetchJson (''/data/'' @ project @ ''/charges/'' @ label) no_options"
| "prepare (GetAdsorptionEnergies project) =
     ViaFetchJson (''/data/'' @ project @ ''/adsorption-energies'') no_options"
| "prepare (GetEnergyDecomposition project) =
     ViaFetchJson (''/data/'' @ project @ ''/energy-decomposition'') no_options"
| "prepare (GetCoverageP project opts) =
     ViaFetchJson (''/thermo/'' @ project @ ''/coverage-vs-pressure'') (post (Some (JsonObject opts)))"
| "prepare (GetCoverageT project opts) =
     ViaFetchJson (''/thermo/'' @ project @ ''/coverage-vs-temperature'')
       (post (Some (JsonObject opts)))"
| "prepare (GetT50 project opts) =
     ViaFetchJson (''/thermo/'' @ project @ ''/t50'') (post (Some (JsonObject opts)))"
| "prepare (CompareSystems project opts) =
     ViaFetchJson (''/thermo/'' @ project @ ''/compare'') (post (Some (JsonObject opts)))"
| "prepare (RunSymbolicRegression project) =
     ViaFetchJson (''/ml/'' @ project @ ''/symbolic-regression'') (post None)"
| "prepare (RunGP project) = ViaFetchJson (''/ml/'' @ project @ ''/gp-predict'') (post None)"
| "prepare (SuggestNext project) = ViaFetchJson (''/ml/'' @ project @ ''/suggest-next'') (post None)"
| "prepare (FeatureImportance project) =
     ViaFetchJson (''/ml/'' @ project @ ''/feature-importance'') (post None)"

text \<open>The request a call hands to \<open>fetch\<close>, and the call itself.\<close>

definition request_of :: "api_call \<Rightarrow> storage \<Rightarrow> request" where
  "request_of call localStorage =
     (case prepare call of
        ViaFetchJson url options \<Rightarrow> fetchJson_request url options localStorage
      | ViaUploadCsv project f \<Rightarrow> uploadCsv_request project f localStorage
      | ViaUploadXyz project f \<Rightarrow> uploadXyz_request project f localStorage)"

definition issue ::
  "(request \<Rightarrow> error + 'j response) \<Rightarrow> api_call \<Rightarrow> storage \<Rightarrow> storage \<times> (error + 'j)"
where
  "issue fetch call localStorage =
     (case prepare call of
        ViaFetchJson url options \<Rightarrow> fetchJson fetch url options localStorage
      | ViaUploadCsv project f \<Rightarrow> uploadCsv fetch project f localStorage
      | ViaUploadXyz project f \<Rightarrow> uploadXyz fetch project f localStorage)"

section \<open>The chat panel: \<open>frontend/src/components/ChatPanel.jsx\<close>\<close>

text \<open>
  The body of a chat response, with the three fields the panel reads (each may be missing),
  a message of the conversation, and the record handed to \<open>onAgentActivity\<close>.
\<close>

record 'r chat_result =
  response :: "string option"
  active_agents :: "string list option"
  agent_results :: "'r option"

record 'r chat_message =
  role :: string
  content :: "string option"
  agents :: "string list option"
  agentResults :: "'r option"

record 'r activity =
  act_query :: string
  act_agents :: "string list option"
  act_agentResults :: "'r option"

text \<open>
  The component's state, with the calls \<open>onAgentActivity\<close> has received so far.
\<close>

record 'r chat_panel =
  messages :: "'r chat_message list"
  input :: string
  loading :: bool
  activeAgents :: "string list"
  activity_calls :: "'r activity list"

text \<open>
  What \<open>handleSend\<close> is called with: nothing (the Enter key calls \<open>handleSend()\<close>, and
  the parameter defaults to \<open>null\<close>), a string (a quick-question button calls
  \<open>handleSend(q)\<close>), or React's click event (the Send button has
  \<open>onClick={handleSend}\<close>, so React passes the event as the first argument).
\<close>

datatype send_arg = NoArgument | Text string | ClickEvent

text \<open>
  \<open>String.prototype.trim\<close>. A string is held as the bytes of its UTF-8 encoding, and
  \<open>trim\<close> removes from both ends every white space and line terminator of ECMAScript:
  TAB, LF, VT, FF, CR, SP, U+00A0, U+1680, U+2000 to U+200A, U+2028, U+2029, U+202F,
  U+205F, U+3000 and U+FEFF. \<open>is_white_space\<close> tells whether a byte sequence is the
  encoding of one of them; an encoding has one, two or three bytes, and no encoding is
  the beginning or the end of another.
\<close>

definition is_white_space :: "string \<Rightarrow> bool" where
  "is_white_space cs =
     (case map of_char cs :: nat list of
        [b] \<Rightarrow> b \<in> {0x09, 0x0A, 0x0B, 0x0C, 0x0D, 0x20}
      | [b1, b2] \<Rightarrow> b1 = 0xC2 \<and> b2 = 0xA0
      | [b1, b2, b3] \<Rightarrow>
          (b1 = 0xE1 \<and> b2 = 0x9A \<and> b3 = 0x80)
          \<or> (b1 = 0xE2 \<and> b2 = 0x80
               \<and> (0x80 \<le> b3 \<and> b3 \<le> 0x8A \<or> b3 = 0xA8 \<or> b3 = 0xA9 \<or> b3 = 0xAF))
          \<or> (b1 = 0xE2 \<and> b2 = 0x81 \<and> b3 = 0x9F)
          \<or> (b1 = 0xE3 \<and> b2 = 0x80 \<and> b3 = 0x80)
          \<or> (b1 = 0xEF \<and> b2 = 0xBB \<and> b3 = 0xBF)
      | _ \<Rightarrow> False)"

function trimStart :: "string \<Rightarrow> string" where
  "trimStart s =
     (case find (\<lambda>k. k \<le> length s \<and> is_white_space (take k s)) [1, 2, 3] of
        None \<Rightarrow> s
      | Some k \<Rightarrow> trimStart (drop k s))"
  by pat_completeness auto
termination
  by (relation "measure length") (auto split: if_splits)

function trimEnd :: "string \<Rightarrow> string" where
  "trimEnd s =
     (case find (\<lambda>k. k \<le> length s \<and> is_white_space (drop (length s - k) s)) [1, 2, 3] of
        None \<Rightarrow> s
      | Some k \<Rightarrow> trimEnd (take (length s - k) s))"
  by pat_completeness auto
termination
  by (relation "measure length") (auto split: if_splits)

declare trimStart.simps [simp del] trimEnd.simps [simp del]

definition trim :: "string \<Rightarrow> string" where
  "trim s = trimEnd (trimStart s)"

text \<open>
  \<open>const query = quickQuery ? quickQuery.trim() : input.trim()\<close>. An event object is
  truthy and has no \<open>trim\<close> method, so calling it throws a \<open>TypeError\<close>.
\<close>

fun query_of :: "send_arg \<Rightarrow> string \<Rightarrow> error + string" where
  "query_of NoArgument inp = Inr (trim inp)"
| "query_of (Text q) inp = (if q \<noteq> [] then Inr (trim q) else Inr (trim inp))"
| "query_of ClickEvent inp = Inl (TypeError ''quickQuery.trim is not a function'')"

definition error_message :: "error \<Rightarrow> 'r chat_message" where
  "error_message err =
     \<lparr>role = ''assistant'', content = Some (''Error: '' @ message err),
      agents = None, agentResults = None\<rparr>"

text \<open>
  \<open>handleSend\<close> is an async function: it returns the state it leaves behind and the
  error its promise is rejected with, if any. \<open>sendChat\<close> is the settled call of the
  API client (a body that is JSON \<open>null\<close> is \<open>None\<close>, and reading a field of it throws
  inside the \<open>try\<close>); \<open>onAgentActivity\<close> tells whether the optional callback was given.
\<close>

definition handleSend ::
  "(string \<Rightarrow> string \<Rightarrow> error + 'r chat_result option) \<Rightarrow> bool \<Rightarrow> string \<Rightarrow> send_arg
     \<Rightarrow> 'r chat_panel \<Rightarrow> 'r chat_panel \<times> error option"
where
  "handleSend sendChat onAgentActivity project quickQuery st =
     (case query_of quickQuery (input st) of
        Inl e \<Rightarrow> (st, Some e)
      | Inr query \<Rightarrow>
          if query = [] \<or> loading st then (st, None)
          else
            (let st1 = st\<lparr>input := [],
                         messages := messages st
                           @ [\<lparr>role = ''user'', content = Some query,
                                agents = None, agentResults = None\<rparr>],
                         loading := True,
                         activeAgents := []\<rparr>;
                 st2 =
                   (case sendChat query project of
                      Inl err \<Rightarrow> st1\<lparr>messages := messages st1 @ [error_message err]\<rparr>
                    | Inr None \<Rightarrow>
                        st1\<lparr>messages := messages st1
                          @ [error_message (TypeError
                               ''Cannot read properties of null (reading 'active_agents')'')]\<rparr>
                    | Inr (Some result) \<Rightarrow>
                        st1\<lparr>activeAgents :=
                              (case active_agents result of None \<Rightarrow> [] | Some a \<Rightarrow> a),
                            messages := messages st1
                              @ [\<lparr>role = ''assistant'', content = response result,
                                   agents = active_agents result,
                                   agentResults = agent_results result\<rparr>],
                            activity_calls :=
                              (if onAgentActivity
                               then activity_calls st1
                                 @ [\<lparr>act_query = query, act_agents = active_agents result,
                                      act_agentResults = agent_results result\<rparr>]
                               else activity_calls st1)\<rparr>)
             in (st2\<lparr>loading := False, activeAgents := []\<rparr>, None)))"

section \<open>The upload page: \<open>frontend/src/components/DataUpload.jsx\<close>\<close>

text \<open>
  An entry of \<open>xyzResults\<close> is an object: \<open>{file: file.name, ...result}\<close> or
  \<open>{file: file.name, error: err.message}\<close>. Its fields are strings the handler writes
  or values of the server's response, and a field of the response named \<open>file\<close>
  replaces the file name, as the spread does.
\<close>

datatype 'v field = Str string | Val 'v

type_synonym 'v xyz_entry = "string \<rightharpoonup> 'v field"

record created_project =
  name :: string

text \<open>
  The state of the page the handler reads and writes: \<open>created\<close> and \<open>csvResult\<close> are
  \<open>null\<close> (\<open>None\<close>) until \<open>createProject\<close> and \<open>uploadCsv\<close> have answered.
\<close>

record 'v upload_page =
  created :: "created_project option"
  csvResult :: "(string \<rightharpoonup> 'v) option"
  xyzResults :: "'v xyz_entry list"
  upload_error :: "string option"

text \<open>
  The file input of step 3, the only element whose \<open>onChange\<close> is \<open>handleXyzUpload\<close>, is
  rendered under \<open>{created && csvResult && (...)}\<close>.
\<close>

definition xyz_input_rendered :: "'v upload_page \<Rightarrow> bool" where
  "xyz_input_rendered st = (created st \<noteq> None \<and> csvResult st \<noteq> None)"

definition uploaded_entry :: "upload_file \<Rightarrow> (string \<rightharpoonup> 'v) \<Rightarrow> 'v xyz_entry" where
  "uploaded_entry f result = [''file'' \<mapsto> Str (file_name f)] ++ (map_option Val \<circ> result)"

definition failed_entry :: "upload_file \<Rightarrow> error \<Rightarrow> 'v xyz_entry" where
  "failed_entry f err = [''file'' \<mapsto> Str (file_name f), ''error'' \<mapsto> Str (message err)]"

text \<open>
  The \<open>for (const file of files)\<close> loop with its \<open>try\<close>/\<open>catch\<close>. \<open>uploadXyz\<close> is the
  API client's call, acting on the world \<open>'w\<close> it runs in (the browser's storage, the
  server).
\<close>

fun xyz_loop ::
  "(string \<Rightarrow> upload_file \<Rightarrow> 'w \<Rightarrow> 'w \<times> (error + (string \<rightharpoonup> 'v))) \<Rightarrow> string \<Rightarrow> upload_file list
     \<Rightarrow> 'v xyz_entry list \<Rightarrow> 'w \<Rightarrow> 'v xyz_entry list \<times> 'w"
where
  "xyz_loop uploadXyz' project [] results w = (results, w)"
| "xyz_loop uploadXyz' project (f # files) results w =
     (case uploadXyz' project f w of
        (w', Inr result) \<Rightarrow> xyz_loop uploadXyz' project files (results @ [uploaded_entry f result]) w'
      | (w', Inl err) \<Rightarrow> xyz_loop uploadXyz' project files (results @ [failed_entry f err]) w')"

text \<open>
  \<open>handleXyzUpload\<close>: \<open>files\<close> is \<open>e.target.files\<close> (\<open>None\<close> when it is \<open>null\<close>),
  \<open>onProjectCreated\<close> the optional callback.
\<close>

definition handleXyzUpload ::
  "(string \<Rightarrow> upload_file \<Rightarrow> 'w \<Rightarrow> 'w \<times> (error + (string \<rightharpoonup> 'v))) \<Rightarrow> ('w \<Rightarrow> 'w) option
     \<Rightarrow> upload_file list option \<Rightarrow> 'v upload_page \<times> 'w \<Rightarrow> 'v upload_page \<times> 'w"
where
  "handleXyzUpload uploadXyz' onProjectCreated files stw =
     (case stw of (st, w) \<Rightarrow>
        (case files of
           None \<Rightarrow> (st, w)
         | Some fs \<Rightarrow>
             (case created st of
                None \<Rightarrow> (st, w)
              | Some c \<Rightarrow>
                  (case xyz_loop uploadXyz' (name c) fs [] w of
                     (results, w') \<Rightarrow>
                       (st\<lparr>upload_error := None, xyzResults := results\<rparr>,
                        (case onProjectCreated of None \<Rightarrow> w' | Some cb \<Rightarrow> cb w'))))))"

section \<open>Numbers on display\<close>

text \<open>
  JavaScript numbers are taken as real numbers where the code only compares them, takes
  absolute values and maxima, or copies them. \<open>x.toFixed(d)\<close> is modelled by the decimal
  number it prints: the multiple of \<open>10\<^sup>-\<^sup>d\<close> nearest to \<open>x\<close>, the one of larger magnitude on
  a tie, and \<open>x\<close> itself from \<open>10\<^sup>2\<^sup>1\<close> on.
\<close>

definition toFixed :: "nat \<Rightarrow> real \<Rightarrow> real" where
  "toFixed d x =
     (if 10 ^ 21 \<le> \<bar>x\<bar> then x
      else sgn x * of_int \<lfloor>\<bar>x\<bar> * 10 ^ d + 1 / 2\<rfloor> / 10 ^ d)"

datatype rgba = Rgba nat nat nat real

section \<open>Joining guarded fetches: \<open>ThermoPlot.jsx\<close> and \<open>PublicationFigures\<close>\<close>

text \<open>
  A settled API call is a rejection or a JSON value, \<open>None\<close> for \<open>null\<close>.
  \<open>p.catch(() => null)\<close> turns a rejection into the value \<open>null\<close>; \<open>Promise.all\<close>
  fulfils with the list of values when every promise fulfils and rejects otherwise.
\<close>

definition catch_null :: "error + 'j option \<Rightarrow> error + 'j option" where
  "catch_null p = (case p of Inl e \<Rightarrow> Inr None | Inr v \<Rightarrow> Inr v)"

fun Promise_all :: "(error + 'a) list \<Rightarrow> error + 'a list" where
  "Promise_all [] = Inr []"
| "Promise_all (p # ps) =
     (case p of
        Inl e \<Rightarrow> Inl e
      | Inr v \<Rightarrow> (case Promise_all ps of Inl e \<Rightarrow> Inl e | Inr vs \<Rightarrow> Inr (v # vs)))"

record 'j thermo_api =
  getT50 :: "string \<Rightarrow> error + 'j option"
  getCoverageP :: "string \<Rightarrow> error + 'j option"
  getCoverageT :: "string \<Rightarrow> error + 'j option"
  compareSystems :: "string \<Rightarrow> error + 'j option"

record 'j thermo_plot =
  tp_t50Data :: "'j option"
  tp_coverageP :: "'j option"
  tp_coverageT :: "'j option"
  tp_comparison :: "'j option"
  tp_loading :: bool

text \<open>
  The effect of \<open>ThermoPlot\<close>: the \<open>then\<close> callback runs only when the join fulfils, and
  there is no rejection handler.
\<close>

definition ThermoPlot_effect :: "'j thermo_api \<Rightarrow> string \<Rightarrow> 'j thermo_plot \<Rightarrow> 'j thermo_plot" where
  "ThermoPlot_effect api project st =
     (let st1 = st\<lparr>tp_loading := True\<rparr>
      in case Promise_all
                [catch_null (getT50 api project),
                 catch_null (getCoverageP api project),
                 catch_null (getCoverageT api project),
                 catch_null (compareSystems api project)] of
           Inr [t50, cvgP, cvgT, comp'] \<Rightarrow>
             st1\<lparr>tp_t50Data := t50, tp_coverageP := cvgP, tp_coverageT := cvgT,
                 tp_comparison := comp', tp_loading := False\<rparr>
         | _ \<Rightarrow> st1)"

record 'j figures_api =
  getAdsorptionEnergies :: "string \<Rightarrow> error + 'j option"
  getEnergyDecomposition :: "string \<Rightarrow> error + 'j option"
  getShifts :: "string \<Rightarrow> error + 'j option"
  fig_getT50 :: "string \<Rightarrow> error + 'j option"
  fig_getCoverageP :: "string \<Rightarrow> error + 'j option"
  fig_getCoverageT :: "string \<Rightarrow> error + 'j option"

record 'j publication_figures =
  pf_eads :: "'j option"
  pf_decomp :: "'j option"
  pf_shifts :: "'j option"
  pf_t50 :: "'j option"
  pf_covP :: "'j option"
  pf_covT :: "'j option"
  pf_loading :: bool

definition PublicationFigures_effect ::
  "'j figures_api \<Rightarrow> string \<Rightarrow> 'j publication_figures \<Rightarrow> 'j publication_figures"
where
  "PublicationFigures_effect api project st =
     (let st1 = st\<lparr>pf_loading := True\<rparr>
      in case Promise_all
                [catch_null (getAdsorptionEnergies api project),
                 catch_null (getEnergyDecomposition api project),
                 catch_null (getShifts api project),
                 catch_null (fig_getT50 api project),
                 catch_null (fig_getCoverageP api project),
                 catch_null (fig_getCoverageT api project)] of
           Inr [e, d, s, t, cp, ct] \<Rightarrow>
             st1\<lparr>pf_eads := e, pf_decomp := d, pf_shifts := s, pf_t50 := t, pf_covP := cp,
                 pf_covT := ct,
                 pf_loading := False\<rparr>
         | _ \<Rightarrow> st1)"

section \<open>The publication figures' panels\<close>

text \<open>
  \<open>systemShort\<close> tests a label against three case-insensitive patterns; each is a plain
  word, so a test is a search for the word in the lower-cased label.
\<close>

definition to_lower :: "char \<Rightarrow> char" where
  "to_lower c =
     (if 65 \<le> (of_char c :: nat) \<and> (of_char c :: nat) \<le> 90 then char_of (of_char c + 32 :: nat)
      else c)"

fun starts_with :: "string \<Rightarrow> string \<Rightarrow> bool" where
  "starts_with [] s = True"
| "starts_with (p # ps) [] = False"
| "starts_with (p # ps) (c # cs) = (p = c \<and> starts_with ps cs)"

fun contains :: "string \<Rightarrow> string \<Rightarrow> bool" where
  "contains p [] = starts_with p []"
| "contains p (c # cs) = (starts_with p (c # cs) \<or> contains p cs)"

definition test_i :: "string \<Rightarrow> string \<Rightarrow> bool" where
  "test_i word label = contains word (map to_lower label)"

definition systemShort :: "string \<Rightarrow> string" where
  "systemShort label =
     (if test_i ''pristine'' label then ''Pristine''
      else if test_i ''2zr'' label \<or> test_i ''zr2'' label then ''2Zr''
      else if test_i ''1zr'' label \<or> test_i ''zr'' label then ''1Zr''
      else label)"

text \<open>\<open>Array.prototype.indexOf\<close>, which is \<open>-1\<close> for a missing element.\<close>

fun indexOf :: "'a list \<Rightarrow> 'a \<Rightarrow> int" where
  "indexOf [] x = - 1"
| "indexOf (y # ys) x =
     (if x = y then 0 else (let r = indexOf ys x in if r < 0 then - 1 else r + 1))"

definition order :: "string list" where
  "order = [''Pristine'', ''1Zr'', ''2Zr'']"

text \<open>
  \<open>systems.sort((a, b) => order.indexOf(systemShort(a)) - order.indexOf(systemShort(b)))\<close>:
  a stable sort by the position of the short name.
\<close>

definition sort_systems :: "string list \<Rightarrow> string list" where
  "sort_systems systems = sort_key (\<lambda>s. indexOf order (systemShort s)) systems"

text \<open>
  One system's series in a thermodynamics response: the fields the panels read, each an
  array of numbers or missing (\<open>None\<close>: not an array). A response is an object from
  system labels to such series, given by its entries in key order; a \<open>null\<close> entry is
  \<open>None\<close>. A chart point is an object from data keys to numbers.
\<close>

record system_series =
  temperatures_K :: "real list option"
  pressures_bar :: "real list option"
  coverages :: "real list option"

type_synonym thermo_response = "(string \<times> system_series option) list"

type_synonym point = "string \<rightharpoonup> real"

record chart =
  chart_data :: "point list"
  reference_area :: "(real \<times> real) option"

text \<open>
  The body of the \<open>systems.forEach\<close> inside the sampling loop, and the point built at grid
  index \<open>i\<close>: it starts as \<open>{T: temps[i]}\<close> (or \<open>{P: pressures[i]}\<close>) and gets one key per
  system whose coverages reach index \<open>i\<close>.
\<close>

definition add_series :: "thermo_response \<Rightarrow> nat \<Rightarrow> string \<Rightarrow> point \<Rightarrow> point" where
  "add_series covData i s pt =
     (case map_of covData s of
        Some (Some data) \<Rightarrow>
          (case coverages data of
             Some cov \<Rightarrow> if i < length cov then pt(systemShort s \<mapsto> cov ! i) else pt
           | None \<Rightarrow> pt)
      | _ \<Rightarrow> pt)"

definition point_at :: "string \<Rightarrow> thermo_response \<Rightarrow> string list \<Rightarrow> real list \<Rightarrow> nat \<Rightarrow> point" where
  "point_at key covData systems grid i = fold (add_series covData i) systems [key \<mapsto> grid ! i]"

text \<open>
  \<open>const step = Math.max(1, Math.floor(grid.length / 50))\<close> and the loop
  \<open>for (let i = 0; i < grid.length; i += step)\<close>, which pushes one point per round.
\<close>

definition step_of :: "real list \<Rightarrow> nat" where
  "step_of grid = max 1 (length grid div 50)"

function sample_from :: "string \<Rightarrow> thermo_response \<Rightarrow> string list \<Rightarrow> real list \<Rightarrow> nat \<Rightarrow> point list" where
  "sample_from key covData systems grid i =
     (if i < length grid
      then point_at key covData systems grid i
             # sample_from key covData systems grid (i + step_of grid)
      else [])"
  by pat_completeness auto
termination
  by (relation "measure (\<lambda>(key, covData, systems, grid, i). length grid - i)")
     (auto simp: step_of_def)

declare sample_from.simps [simp del]

text \<open>
  Panel (e) draws \<open><ReferenceArea x1={233} x2={358} .../>\<close> on its Kelvin axis.
\<close>

definition PanelCoverageVsTemp_area :: "real \<times> real" where
  "PanelCoverageVsTemp_area = (233, 358)"

definition PanelCoverageVsTemp :: "thermo_response option \<Rightarrow> chart option" where
  "PanelCoverageVsTemp covTData =
     (case covTData of
        None \<Rightarrow> None
      | Some d \<Rightarrow>
          (case sort_systems (map fst d) of
             [] \<Rightarrow> None
           | refSys # rest \<Rightarrow>
               (case map_of d refSys of
                  Some (Some sysData) \<Rightarrow>
                    (case temperatures_K sysData of
                       None \<Rightarrow> None
                     | Some temps \<Rightarrow>
                         if temps = [] then None
                         else Some \<lparr>chart_data = sample_from ''T'' d (refSys # rest) temps 0,
                                    reference_area = Some PanelCoverageVsTemp_area\<rparr>)
                | _ \<Rightarrow> None)))"

definition PanelCoverageVsPressure :: "thermo_response option \<Rightarrow> chart option" where
  "PanelCoverageVsPressure covPData =
     (case covPData of
        None \<Rightarrow> None
      | Some d \<Rightarrow>
          (case sort_systems (map fst d) of
             [] \<Rightarrow> None
           | refSys # rest \<Rightarrow>
               (case map_of d refSys of
                  Some (Some sysData) \<Rightarrow>
                    (case pressures_bar sysData of
                       None \<Rightarrow> None
                     | Some pressures \<Rightarrow>
                         if pressures = [] then None
                         else Some \<lparr>chart_data = sample_from ''P'' d (refSys # rest) pressures 0,
                                    reference_area = None\<rparr>)
                | _ \<Rightarrow> None)))"

text \<open>
  Panel (c), the heatmap of descriptor shifts. The response carries \<open>pairs_found\<close> and
  \<open>shifts\<close>, an object from system labels to objects from descriptor names to numbers;
  a key that is missing and a value that is \<open>null\<close> are both \<open>None\<close>, and \<open>?? 0\<close> treats
  them alike.
\<close>

record shifts_response =
  sd_shifts :: "(string \<times> (string \<rightharpoonup> real) option) list option"
  sd_pairs_found :: "nat option"

definition descs :: "string list" where
  "descs = [''Eg_eV'', ''mu_eV'', ''omega_eV'', ''chi_eV'', ''eta_eV'']"

text \<open>\<open>shiftsData.shifts[sys]?.[d] ?? 0\<close>\<close>

definition shift_value :: "(string \<times> (string \<rightharpoonup> real) option) list \<Rightarrow> string \<Rightarrow> string \<Rightarrow> real" where
  "shift_value shiftsObj sys d =
     (case map_of shiftsObj sys of
        Some (Some m) \<Rightarrow> (case m d of Some v \<Rightarrow> v | None \<Rightarrow> 0)
      | _ \<Rightarrow> 0)"

definition shift_values :: "(string \<times> (string \<rightharpoonup> real) option) list \<Rightarrow> string list \<Rightarrow> real list list" where
  "shift_values shiftsObj systems = map (\<lambda>sys. map (\<lambda>d. shift_value shiftsObj sys d) descs) systems"

text \<open>
  \<open>const allVals = values.flat().filter(v => v !== 0)\<close> and
  \<open>const maxAbs = Math.max(...allVals.map(Math.abs), 0.001)\<close>
\<close>

definition allVals :: "real list list \<Rightarrow> real list" where
  "allVals values = filter (\<lambda>v. v \<noteq> 0) (concat values)"

definition maxAbs :: "real list list \<Rightarrow> real" where
  "maxAbs values = foldr max (map abs (allVals values)) 0.001"

definition cellColor :: "real \<Rightarrow> real \<Rightarrow> rgba" where
  "cellColor mx v =
     (let intensity = min (\<bar>v\<bar> / mx) 1 * 0.7
      in if v > 0 then Rgba 220 38 38 intensity else Rgba 37 99 235 intensity)"

record shift_cell =
  sc_text :: real
  sc_background :: rgba
  sc_white :: bool

definition render_shift_cell :: "real \<Rightarrow> real \<Rightarrow> shift_cell" where
  "render_shift_cell mx v =
     \<lparr>sc_text = toFixed 4 v, sc_background = cellColor mx v, sc_white = (\<bar>v\<bar> / mx > 0.5)\<rparr>"

text \<open>
  The panel renders nothing (\<open>None\<close>) without shifts or with no pair found; otherwise one
  table row per system, its short name first.
\<close>

definition PanelDescriptorShifts :: "shifts_response option \<Rightarrow> (string \<times> shift_cell list) list option" where
  "PanelDescriptorShifts shiftsData =
     (case shiftsData of
        None \<Rightarrow> None
      | Some sd \<Rightarrow>
          (case sd_shifts sd of
             None \<Rightarrow> None
           | Some shiftsObj \<Rightarrow>
               if sd_pairs_found sd = Some 0 then None
               else
                 (let systems = sort_systems (map fst shiftsObj);
                      values = shift_values shiftsObj systems;
                      mx = maxAbs values
                  in Some (map (\<lambda>(sys, row). (systemShort sys, map (render_shift_cell mx) row))
                             (zip systems values)))))"

section \<open>The DOE window on the charts\<close>

text \<open>
  Four charts shade the DOE window with a \<open>ReferenceArea\<close>. The two of \<open>ThermoPlot.jsx\<close>
  have Celsius axes (the component plots \<open>t50_K[i] - 273.15\<close> and
  \<open>temperatures_K[i] - 273.15\<close>); the two panels of the publication figures have Kelvin
  axes. The bounds are the literals of the source.
\<close>

datatype doe_chart =
    ThermoPlot_T50vsPressure
  | ThermoPlot_CoverageVsTemperature
  | Figures_T50vsPressure
  | Figures_CoverageVsTemp

definition ThermoPlot_celsius :: "real \<Rightarrow> real" where
  "ThermoPlot_celsius T_K = T_K - 273.15"

definition ThermoPlot_T50_area :: "real \<times> real" where
  "ThermoPlot_T50_area = (- 40, 85)"

definition ThermoPlot_T50_lines :: "real list" where
  "ThermoPlot_T50_lines = [- 40, 85]"

definition ThermoPlot_coverageT_area :: "real \<times> real" where
  "ThermoPlot_coverageT_area = (- 40, 85)"

definition PanelT50vsPressure_area :: "real \<times> real" where
  "PanelT50vsPressure_area = (233.15, 358.15)"

text \<open>
  The shaded band of a chart, and whether a temperature in Kelvin falls into it once it
  is plotted on the chart's axis.
\<close>

fun doe_area :: "doe_chart \<Rightarrow> real \<times> real" where
  "doe_area ThermoPlot_T50vsPressure = ThermoPlot_T50_area"
| "doe_area ThermoPlot_CoverageVsTemperature = ThermoPlot_coverageT_area"
| "doe_area Figures_T50vsPressure = PanelT50vsPressure_area"
| "doe_area Figures_CoverageVsTemp = PanelCoverageVsTemp_area"

fun kelvin_axis :: "doe_chart \<Rightarrow> bool" where
  "kelvin_axis ThermoPlot_T50vsPressure = False"
| "kelvin_axis ThermoPlot_CoverageVsTemperature = False"
| "kelvin_axis Figures_T50vsPressure = True"
| "kelvin_axis Figures_CoverageVsTemp = True"

definition shaded :: "doe_chart \<Rightarrow> real \<Rightarrow> bool" where
  "shaded c T_K =
     (let v = (if kelvin_axis c then T_K else ThermoPlot_celsius T_K)
      in fst (doe_area c) \<le> v \<and> v \<le> snd (doe_area c))"

section \<open>The correlation table of the descriptor dashboard\<close>

text \<open>
  The repository holds the descriptor dashboard twice, and the two copies differ in the
  cell renderer of the correlation table: \<open>unnamed/part_003\<close> tests the entry for
  \<open>null\<close>, \<open>undefined\<close> and \<open>NaN\<close> first, and
  \<open>frontend/src/components/DescriptorDashboard.jsx\<close> does not.

  An entry of the matrix as a renderer meets it: \<open>null\<close>, \<open>undefined\<close>, \<open>NaN\<close> or a
  finite number. A cell is the placeholder, a number cell with its text
  (\<open>val.toFixed(2)\<close>), the value in its title (\<open>val.toFixed(3)\<close>), its background and
  whether its text is white, or a cell whose text reads \<open>NaN\<close> (what \<open>toFixed\<close> returns
  for \<open>NaN\<close>).
\<close>

datatype corr_entry = Null | Undefined | NaN | Num real

record corr_cell =
  cell_text :: real
  cell_title_value :: real
  cell_background :: rgba
  cell_white :: bool

datatype corr_rendered = Placeholder | NumberCell corr_cell | NaNCell

text \<open>
  The cell of a finite number, the same in both copies.
\<close>

definition number_cell :: "real \<Rightarrow> corr_rendered" where
  "number_cell v =
     (let absVal = \<bar>v\<bar>;
          color = (if v > 0 then Rgba 59 130 246 (absVal * 0.8)
                   else Rgba 239 68 68 (absVal * 0.8))
      in NumberCell \<lparr>cell_text = toFixed 2 v, cell_title_value = toFixed 3 v,
                      cell_background = color, cell_white = (absVal > 0.5)\<rparr>)"

text \<open>
  The renderer of \<open>unnamed/part_003\<close>, lines 219 to 242:
  \<open>if (val === null || val === undefined || isNaN(val))\<close> returns the placeholder cell.
\<close>

definition render_corr_cell :: "corr_entry \<Rightarrow> corr_rendered" where
  "render_corr_cell val =
     (case val of
        Null \<Rightarrow> Placeholder
      | Undefined \<Rightarrow> Placeholder
      | NaN \<Rightarrow> Placeholder
      | Num v \<Rightarrow> number_cell v)"

text \<open>
  The renderer of \<open>frontend/src/components/DescriptorDashboard.jsx\<close>, lines 177 to 192,
  which has no such test. \<open>Math.abs(null)\<close> is \<open>0\<close> and \<open>null > 0\<close> is false, so the
  colour is computed, and then \<open>val.toFixed(3)\<close> in the title throws; the same for
  \<open>undefined\<close>. For \<open>NaN\<close> every comparison is false and \<open>toFixed\<close> returns \<open>NaN\<close>.
\<close>

definition render_corr_cell_unguarded :: "corr_entry \<Rightarrow> error + corr_rendered" where
  "render_corr_cell_unguarded val =
     (case val of
        Null \<Rightarrow> Inl (TypeError ''Cannot read properties of null (reading 'toFixed')'')
      | Undefined \<Rightarrow> Inl (TypeError ''Cannot read properties of undefined (reading 'toFixed')'')
      | NaN \<Rightarrow> Inr NaNCell
      | Num v \<Rightarrow> Inr (number_cell v))"

record correlation =
  columns :: "string list"
  matrix :: "corr_entry list list"

text \<open>
  The table body: one row per column name, the cells of \<open>matrix[i]\<close> in it. A matrix
  with fewer rows than names makes \<open>matrix[i].map\<close> throw.
\<close>

definition correlation_rows :: "correlation \<Rightarrow> error + (string \<times> corr_rendered list) list" where
  "correlation_rows c =
     (if length (columns c) \<le> length (matrix c)
      then Inr (map (\<lambda>i. (columns c ! i, map render_corr_cell (matrix c ! i)))
                  [0..<length (columns c)])
      else Inl (TypeError ''Cannot read properties of undefined (reading 'map')''))"

text \<open>
  The same body with the renderer that can throw: the callbacks of \<open>map\<close> run in order,
  and the first exception ends the rendering of the table.
\<close>

fun collect :: "(error + 'a) list \<Rightarrow> error + 'a list" where
  "collect [] = Inr []"
| "collect (x # xs) =
     (case x of
        Inl e \<Rightarrow> Inl e
      | Inr v \<Rightarrow> (case collect xs of Inl e \<Rightarrow> Inl e | Inr vs \<Rightarrow> Inr (v # vs)))"

definition correlation_rows_unguarded ::
  "correlation \<Rightarrow> error + (string \<times> corr_rendered list) list"
where
  "correlation_rows_unguarded c =
     (if length (columns c) \<le> length (matrix c)
      then collect
             (map (\<lambda>i. case collect (map render_corr_cell_unguarded (matrix c ! i)) of
                         Inl e \<Rightarrow> Inl e
                       | Inr cells \<Rightarrow> Inr (columns c ! i, cells))
                [0..<length (columns c)])
      else Inl (TypeError ''Cannot read properties of undefined (reading 'map')''))"

section \<open>The thermo engine\<close>

text \<open>
  The thermo engine belongs to the backend, whose code is not among the repository's
  files here; its functions are modelled from the spec, over the real numbers. The
  parameters of an isotherm are the prefactor \<open>K0\<close>, the enthalpy \<open>\<Delta>H\<close> and the gas
  constant \<open>R\<close> in the units of \<open>\<Delta>H\<close>.
\<close>

record isotherm_parameters =
  K0 :: real
  delta_H :: real
  R_gas :: real

text \<open>
  Modelled from the spec: the equilibrium constant of the missing thermo engine, with
  the van't Hoff temperature dependence \<open>K(T) = K0 \<cdot> exp(-\<Delta>H / (R\<cdot>T))\<close>.
\<close>

definition K_eq :: "isotherm_parameters \<Rightarrow> real \<Rightarrow> real" where
  "K_eq p T = K0 p * exp (- delta_H p / (R_gas p * T))"

text \<open>
  Modelled from the spec: \<open>coverage(T, P)\<close> of the missing thermo engine, the Langmuir
  form \<open>\<theta> = K(T)\<cdot>P / (1 + K(T)\<cdot>P)\<close>.
\<close>

definition coverage :: "isotherm_parameters \<Rightarrow> real \<Rightarrow> real \<Rightarrow> real" where
  "coverage p T P = K_eq p T * P / (1 + K_eq p T * P)"

text \<open>
  The spec has \<open>t50\<close> find the temperature at which the coverage is \<open>0.5\<close> by bisection
  over a bounded temperature interval, to a small tolerance \<open>\<epsilon>\<close> on \<open>|coverage - 0.5|\<close>,
  and fail with \<open>RootNotBracketed\<close> when the coverage does not cross \<open>0.5\<close> within the
  interval. The search interval and the tolerance are parameters.
\<close>

datatype thermo_error = RootNotBracketed

record t50_search =
  T_lo :: real
  T_hi :: real
  tolerance :: real

text \<open>
  Modelled from the spec: the bisection of the missing thermo engine. It stops at the
  first midpoint at which \<open>g\<close> is within the tolerance of zero, and otherwise keeps the
  half at whose ends \<open>g\<close> changes sign. A search that never stops has no result
  (\<open>None\<close>).
\<close>

partial_function (option) bisect :: "(real \<Rightarrow> real) \<Rightarrow> real \<Rightarrow> real \<Rightarrow> real \<Rightarrow> real option" where
  "bisect g eps lo hi =
     (if \<bar>g ((lo + hi) / 2)\<bar> < eps then Some ((lo + hi) / 2)
      else if g lo * g ((lo + hi) / 2) \<le> 0 then bisect g eps lo ((lo + hi) / 2)
      else bisect g eps ((lo + hi) / 2) hi)"

text \<open>
  Modelled from the spec: \<open>t50(P)\<close> of the missing thermo engine. The root is bracketed
  when \<open>coverage - 0.5\<close> changes sign between the ends of the search interval; then the
  bisection runs, and otherwise the result is the error \<open>RootNotBracketed\<close>.
\<close>

definition t50 :: "isotherm_parameters \<Rightarrow> t50_search \<Rightarrow> real \<Rightarrow> (thermo_error + real) option" where
  "t50 p s P =
     (let g = (\<lambda>T. coverage p T P - 1 / 2)
      in if g (T_lo s) * g (T_hi s) \<le> 0
         then map_option Inr (bisect g (tolerance s) (T_lo s) (T_hi s))
         else Some (Inl RootNotBracketed))"

section \<open>Vocabulary of the statements\<close>



text \<open>The indices \<open>0, s, 2s, ...\<close> below \<open>n\<close>, in ascending order.\<close>

definition stride_indices :: "nat \<Rightarrow> nat \<Rightarrow> nat list" where
  "stride_indices n s = filter (\<lambda>i. i mod s = 0) [0..<n]"

text \<open>
  A chart point that is the grid point of index \<open>i\<close>: each of its values is the grid value
  at \<open>i\<close> under the axis key or some system's coverage at \<open>i\<close> under that system's short
  name; the axis key holds the grid value unless a system is short-named like the axis
  key; and when the short names are distinct, every system whose coverages reach \<open>i\<close>
  has its coverage at \<open>i\<close> in the point.
\<close>

definition grid_point ::
  "string \<Rightarrow> thermo_response \<Rightarrow> string list \<Rightarrow> real list \<Rightarrow> nat \<Rightarrow> point \<Rightarrow> bool"
where
  "grid_point key d systems grid i pt \<longleftrightarrow>
     (\<forall>k v. pt k = Some v \<longrightarrow>
        (k = key \<and> v = grid ! i) \<or>
        (\<exists>s\<in>set systems. \<exists>data cov. map_of d s = Some (Some data) \<and> coverages data = Some cov
            \<and> i < length cov \<and> systemShort s = k \<and> v = cov ! i))
   \<and> ((\<forall>s\<in>set systems. systemShort s \<noteq> key) \<longrightarrow> pt key = Some (grid ! i))
   \<and> (distinct (map systemShort systems) \<longrightarrow>
        (\<forall>s\<in>set systems. \<forall>data cov.
            map_of d s = Some (Some data) \<and> coverages data = Some cov \<and> i < length cov
            \<longrightarrow> pt (systemShort s) = Some (cov ! i)))"

text \<open>
  A list of chart points that is the stride subsequence of a grid of \<open>n\<close> points with
  stride \<open>s = max(1, floor(n / 50))\<close>: one point per index \<open>0, s, 2s, ...\<close>, in this order,
  each the grid point of its index; up to 50 grid points, the indices are all of them.
\<close>

definition stride_sampled ::
  "string \<Rightarrow> thermo_response \<Rightarrow> string list \<Rightarrow> real list \<Rightarrow> point list \<Rightarrow> bool"
where
  "stride_sampled key d systems grid pts \<longleftrightarrow>
     (let n = length grid; s = max 1 (n div 50)
      in length pts = length (stride_indices n s)
         \<and> (\<forall>k<length pts. grid_point key d systems grid (stride_indices n s ! k) (pts ! k))
         \<and> (n \<le> 50 \<longrightarrow> stride_indices n s = [0..<n]))"

text \<open>A function that does not decrease, or does not increase, over an interval.\<close>

definition increasing_on :: "(real \<Rightarrow> real) \<Rightarrow> real \<Rightarrow> real \<Rightarrow> bool" where
  "increasing_on g lo hi \<longleftrightarrow> (\<forall>x y. lo \<le> x \<and> x \<le> y \<and> y \<le> hi \<longrightarrow> g x \<le> g y)"

definition decreasing_on :: "(real \<Rightarrow> real) \<Rightarrow> real \<Rightarrow> real \<Rightarrow> bool" where
  "decreasing_on g lo hi \<longleftrightarrow> (\<forall>x y. lo \<le> x \<and> x \<le> y \<and> y \<le> hi \<longrightarrow> g y \<le> g x)"

section \<open>The session header of the API client\<close>

lemma prepare_no_headers:
  "prepare call = ViaFetchJson url options \<Longrightarrow> opt_headers options = None"
  by (cases call) (auto simp: no_options_def post_def)

lemma request_session_header:
  "req_headers (request_of call localStorage) ''X-Session-ID'' =
     (if truthy (getSessionId localStorage) then getSessionId localStorage else None)"
proof (cases "prepare call")
  case (ViaFetchJson url options)
  then have "opt_headers options = None" by (rule prepare_no_headers)
  with ViaFetchJson show ?thesis
    by (auto simp: request_of_def fetchJson_request_def Let_def truthy_def map_add_def
             split: option.splits)
next
  case (ViaUploadCsv project f)
  then show ?thesis
    by (auto simp: request_of_def uploadCsv_request_def Let_def truthy_def split: option.splits)
next
  case (ViaUploadXyz project f)
  then show ?thesis
    by (auto simp: request_of_def uploadXyz_request_def Let_def truthy_def split: option.splits)
qed

lemma issue_storage:
  "fst (issue fetch call localStorage) =
     (case fetch (request_of call localStorage) of
        Inl e \<Rightarrow> localStorage
      | Inr res \<Rightarrow> save_response_session res localStorage)"
  by (cases "prepare call")
     (auto simp: issue_def request_of_def fetchJson_def uploadCsv_def uploadXyz_def Let_def
           split: sum.splits)

lemma save_response_session_get:
  "getSessionId (save_response_session res localStorage) =
     (if truthy (res_headers_get res ''X-Session-ID'') then res_headers_get res ''X-Session-ID''
      else getSessionId localStorage)"
  by (auto simp: save_response_session_def Let_def getSessionId_def setSessionId_def truthy_def
           split: option.splits)

text \<open>
  An \<open>options\<close> object with a \<open>headers\<close> key would replace the headers \<open>fetchJson\<close> has
  built, the session header among them; no exported call passes one.
\<close>

lemma fetchJson_request_headers_override:
  "opt_headers options = Some h \<Longrightarrow> req_headers (fetchJson_request url options localStorage) = h"
  by (simp add: fetchJson_request_def Let_def)

text \<open>
  Claim C4. For every request of the client (every exported call, through \<open>fetchJson\<close>,
  \<open>uploadCsv\<close> or \<open>uploadXyz\<close>): a stored session id is sent in the \<open>X-Session-ID\<close>
  request header, and without one the header is not sent; when the response carries a
  session id in its \<open>X-Session-ID\<close> header, that id is stored, whether the response is ok
  or not, and every request issued from the storage left behind sends it. A session id is
  present where the code's own test (\<open>if (sessionId)\<close>, \<open>if (responseSessionId)\<close>) finds
  one: the value is a string and not the empty one.
\<close>

theorem session_header_exchange:
  fixes fetch :: "request \<Rightarrow> error + 'j response"
  shows "(truthy (getSessionId localStorage) \<longrightarrow>
            req_headers (request_of call localStorage) ''X-Session-ID'' = getSessionId localStorage)
       \<and> (\<not> truthy (getSessionId localStorage) \<longrightarrow>
            req_headers (request_of call localStorage) ''X-Session-ID'' = None)
       \<and> (fetch (request_of call localStorage) = Inr res
            \<and> truthy (res_headers_get res ''X-Session-ID'') \<longrightarrow>
            getSessionId (fst (issue fetch call localStorage)) = res_headers_get res ''X-Session-ID''
            \<and> (\<forall>call'. req_headers (request_of call' (fst (issue fetch call localStorage)))
                   ''X-Session-ID'' = res_headers_get res ''X-Session-ID''))"
  by (auto simp: request_session_header issue_storage save_response_session_get)

theorem session_header_exchange_witness:
  "req_headers (request_of GetProjects [''hydra_session_id'' \<mapsto> ''s1'']) ''X-Session-ID'' = Some ''s1''
   \<and> req_headers (request_of (UploadXyz ''p'' \<lparr>file_name = ''a.xyz'', file_content = ''1''\<rparr>) Map.empty)
        ''X-Session-ID'' = None
   \<and> getSessionId
        (fst (issue
                (\<lambda>r. Inr \<lparr>res_headers_get = (\<lambda>h. if h = ''X-Session-ID'' then Some ''s2'' else None),
                          res_ok = False, res_status = 404, res_text = ''no such project'',
                          res_json = Inr ()\<rparr>)
                (GetShifts ''p'') [''hydra_session_id'' \<mapsto> ''s1''])) = Some ''s2''
   \<and> req_headers
        (request_of (SendChat ''q'' ''p'')
           (fst (issue
                   (\<lambda>r. Inr \<lparr>res_headers_get = (\<lambda>h. if h = ''X-Session-ID'' then Some ''s2'' else None),
                             res_ok = False, res_status = 404, res_text = ''no such project'',
                             res_json = Inr ()\<rparr>)
                   (GetShifts ''p'') [''hydra_session_id'' \<mapsto> ''s1''])))
        ''X-Session-ID'' = Some ''s2''"
proof -
  let ?ls = "[''hydra_session_id'' \<mapsto> ''s1'']"
  let ?res = "\<lparr>res_headers_get = (\<lambda>h. if h = ''X-Session-ID'' then Some ''s2'' else None),
               res_ok = False, res_status = 404, res_text = ''no such project'',
               res_json = Inr ()\<rparr>"
  let ?fetch = "\<lambda>r :: request. (Inr ?res :: error + unit response)"
  have a: "req_headers (request_of GetProjects ?ls) ''X-Session-ID'' = Some ''s1''"
    using session_header_exchange [of ?ls GetProjects ?fetch ?res]
    by (simp add: truthy_def getSessionId_def)
  have b: "req_headers
             (request_of (UploadXyz ''p'' \<lparr>file_name = ''a.xyz'', file_content = ''1''\<rparr>) Map.empty)
             ''X-Session-ID'' = None"
    using session_header_exchange
            [of Map.empty "UploadXyz ''p'' \<lparr>file_name = ''a.xyz'', file_content = ''1''\<rparr>"
                ?fetch ?res]
    by (simp add: truthy_def getSessionId_def)
  have c: "getSessionId (fst (issue ?fetch (GetShifts ''p'') ?ls)) = Some ''s2''
           \<and> (\<forall>call'. req_headers (request_of call' (fst (issue ?fetch (GetShifts ''p'') ?ls)))
                  ''X-Session-ID'' = Some ''s2'')"
    using session_header_exchange [of ?ls "GetShifts ''p''" ?fetch ?res]
    by (simp add: truthy_def)
  show ?thesis using a b c by blast
qed

text \<open>
  An empty header value, like an empty stored value, counts as no session id: the
  storage keeps what it had.
\<close>

lemma empty_session_header_ignored:
  "res_headers_get res ''X-Session-ID'' = Some [] \<Longrightarrow>
     fst (issue (\<lambda>r. Inr res) call localStorage) = localStorage"
  by (simp add: issue_storage save_response_session_def truthy_def)

section \<open>Sending a chat query\<close>

text \<open>
  Called with no argument or with a string, \<open>handleSend\<close> does nothing on an empty query
  or while a request is in flight, and otherwise appends the user's message and one
  assistant message, and ends with \<open>loading\<close> false.
\<close>

lemma handleSend_answers:
  assumes "query_of quickQuery (input st) = Inr q"
  shows "(q = [] \<or> loading st \<longrightarrow> handleSend sendChat oa project quickQuery st = (st, None))
    \<and> (q \<noteq> [] \<and> \<not> loading st \<longrightarrow>
        snd (handleSend sendChat oa project quickQuery st) = None
      \<and> \<not> loading (fst (handleSend sendChat oa project quickQuery st))
      \<and> (\<exists>m. messages (fst (handleSend sendChat oa project quickQuery st))
                = messages st
                  @ [\<lparr>role = ''user'', content = Some q, agents = None, agentResults = None\<rparr>, m]
            \<and> role m = ''assistant''
            \<and> content m =
                (case sendChat q project of
                   Inl err \<Rightarrow> Some (''Error: '' @ message err)
                 | Inr None \<Rightarrow>
                     Some (''Error: Cannot read properties of null (reading 'active_agents')'')
                 | Inr (Some result) \<Rightarrow> response result)))"
  using assms
  by (auto simp: handleSend_def Let_def error_message_def split: sum.splits option.splits)

lemma handleSend_click:
  "handleSend sendChat oa project ClickEvent st
     = (st, Some (TypeError ''quickQuery.trim is not a function''))"
  by (simp add: handleSend_def)

text \<open>
  Claim C3. Every submitted chat query is to produce one user message and one assistant
  message. The Send button submits the typed query by \<open>onClick={handleSend}\<close>, which
  calls \<open>handleSend\<close> with the click event: with the query \<open>hello\<close> typed and no request in
  flight, the call throws before it touches the state, so the conversation stays empty
  and no request is sent, while the Enter key (\<open>handleSend()\<close>) on the same state appends
  the query and the answer.
\<close>

theorem handleSend_send_button:
  "handleSend
      (\<lambda>q p. Inr (Some \<lparr>response = Some ''hi'', active_agents = Some [''reasoning''],
                         agent_results = None :: unit option\<rparr>))
      True ''zr-tio2'' ClickEvent
      \<lparr>messages = [], input = ''hello'', loading = False, activeAgents = [], activity_calls = []\<rparr>
   = (\<lparr>messages = [], input = ''hello'', loading = False, activeAgents = [], activity_calls = []\<rparr>,
      Some (TypeError ''quickQuery.trim is not a function''))
   \<and> map content
        (messages (fst (handleSend
           (\<lambda>q p. Inr (Some \<lparr>response = Some ''hi'', active_agents = Some [''reasoning''],
                              agent_results = None :: unit option\<rparr>))
           True ''zr-tio2'' NoArgument
           \<lparr>messages = [], input = ''hello'', loading = False, activeAgents = [],
              activity_calls = []\<rparr>)))
     = [Some ''hello'', Some ''hi'']"
  by (simp add: handleSend_def trim_def trimStart.simps trimEnd.simps is_white_space_def Let_def)

section \<open>Uploading XYZ files\<close>





text \<open>
  The guard \<open>if (!files || !created) return\<close>: without a file list or without a created
  project the handler changes nothing. The page does not call it so, since the file input
  it is attached to is rendered only once a project has been created.
\<close>

lemma handleXyzUpload_guard:
  "files = None \<or> created st = None \<Longrightarrow> handleXyzUpload up cb files (st, w) = (st, w)"
  by (auto simp: handleXyzUpload_def split: option.splits)

lemma xyz_input_rendered_created:
  "xyz_input_rendered st \<Longrightarrow> \<exists>c. created st = Some c"
  by (auto simp: xyz_input_rendered_def)




section \<open>The initial load of the dashboards\<close>

lemma ThermoPlot_effect_panels:
  "tp_loading (ThermoPlot_effect api project st) = False
   \<and> tp_t50Data (ThermoPlot_effect api project st)
       = (case getT50 api project of Inl e \<Rightarrow> None | Inr v \<Rightarrow> v)
   \<and> tp_coverageP (ThermoPlot_effect api project st)
       = (case getCoverageP api project of Inl e \<Rightarrow> None | Inr v \<Rightarrow> v)
   \<and> tp_coverageT (ThermoPlot_effect api project st)
       = (case getCoverageT api project of Inl e \<Rightarrow> None | Inr v \<Rightarrow> v)
   \<and> tp_comparison (ThermoPlot_effect api project st)
       = (case compareSystems api project of Inl e \<Rightarrow> None | Inr v \<Rightarrow> v)"
  by (simp add: ThermoPlot_effect_def catch_null_def Let_def split: sum.splits)

lemma PublicationFigures_effect_panels:
  "pf_loading (PublicationFigures_effect api project st) = False
   \<and> pf_eads (PublicationFigures_effect api project st)
       = (case getAdsorptionEnergies api project of Inl e \<Rightarrow> None | Inr v \<Rightarrow> v)
   \<and> pf_decomp (PublicationFigures_effect api project st)
       = (case getEnergyDecomposition api project of Inl e \<Rightarrow> None | Inr v \<Rightarrow> v)
   \<and> pf_shifts (PublicationFigures_effect api project st)
       = (case getShifts api project of Inl e \<Rightarrow> None | Inr v \<Rightarrow> v)
   \<and> pf_t50 (PublicationFigures_effect api project st)
       = (case fig_getT50 api project of Inl e \<Rightarrow> None | Inr v \<Rightarrow> v)
   \<and> pf_covP (PublicationFigures_effect api project st)
       = (case fig_getCoverageP api project of Inl e \<Rightarrow> None | Inr v \<Rightarrow> v)
   \<and> pf_covT (PublicationFigures_effect api project st)
       = (case fig_getCoverageT api project of Inl e \<Rightarrow> None | Inr v \<Rightarrow> v)"
  by (simp add: PublicationFigures_effect_def catch_null_def Let_def split: sum.splits)

lemma Promise_all_guarded:
  "\<exists>vs. Promise_all (map catch_null ps) = Inr vs \<and> length vs = length ps"
  by (induction ps) (auto simp: catch_null_def split: sum.splits)

text \<open>
  Claim C8. In both dashboards the initial load joins fetches that are each guarded to
  resolve to \<open>null\<close> on failure, so the join fulfils whichever fetches fail: whatever the
  outcomes of the endpoints, the loading flag ends false, every panel whose fetch failed
  receives \<open>null\<close>, and every other panel receives the data of its own fetch.
\<close>

theorem guarded_join_loads_every_panel:
  "(\<exists>vs. Promise_all (map catch_null ps) = Inr vs \<and> length vs = length ps)
   \<and> tp_loading (ThermoPlot_effect tapi project tst) = False
   \<and> tp_t50Data (ThermoPlot_effect tapi project tst)
       = (case getT50 tapi project of Inl e \<Rightarrow> None | Inr v \<Rightarrow> v)
   \<and> tp_coverageP (ThermoPlot_effect tapi project tst)
       = (case getCoverageP tapi project of Inl e \<Rightarrow> None | Inr v \<Rightarrow> v)
   \<and> tp_coverageT (ThermoPlot_effect tapi project tst)
       = (case getCoverageT tapi project of Inl e \<Rightarrow> None | Inr v \<Rightarrow> v)
   \<and> tp_comparison (ThermoPlot_effect tapi project tst)
       = (case compareSystems tapi project of Inl e \<Rightarrow> None | Inr v \<Rightarrow> v)
   \<and> pf_loading (PublicationFigures_effect fapi project fig) = False
   \<and> pf_eads (PublicationFigures_effect fapi project fig)
       = (case getAdsorptionEnergies fapi project of Inl e \<Rightarrow> None | Inr v \<Rightarrow> v)
   \<and> pf_decomp (PublicationFigures_effect fapi project fig)
       = (case getEnergyDecomposition fapi project of Inl e \<Rightarrow> None | Inr v \<Rightarrow> v)
   \<and> pf_shifts (PublicationFigures_effect fapi project fig)
       = (case getShifts fapi project of Inl e \<Rightarrow> None | Inr v \<Rightarrow> v)
   \<and> pf_t50 (PublicationFigures_effect fapi project fig)
       = (case fig_getT50 fapi project of Inl e \<Rightarrow> None | Inr v \<Rightarrow> v)
   \<and> pf_covP (PublicationFigures_effect fapi project fig)
       = (case fig_getCoverageP fapi project of Inl e \<Rightarrow> None | Inr v \<Rightarrow> v)
   \<and> pf_covT (PublicationFigures_effect fapi project fig)
       = (case fig_getCoverageT fapi project of Inl e \<Rightarrow> None | Inr v \<Rightarrow> v)"
  using Promise_all_guarded [of ps] ThermoPlot_effect_panels [of tapi project tst]
    PublicationFigures_effect_panels [of fapi project fig]
  by blast

section \<open>The DOE window on the charts\<close>

lemma PanelCoverageVsTemp_reference_area:
  "PanelCoverageVsTemp covTData = Some c \<Longrightarrow> reference_area c = Some (233, 358)"
  by (auto simp: PanelCoverageVsTemp_def PanelCoverageVsTemp_area_def
           split: option.splits list.splits if_splits)

text \<open>
  Claim C6. The DOE window is \<open>-40\<close> to \<open>85\<close> degrees Celsius, that is \<open>233.15\<close> to \<open>358.15\<close>
  Kelvin, and every chart is to shade exactly this band. The two Celsius charts and the
  Kelvin chart of panel (d) do; the Kelvin chart of panel (e), \<open>PanelCoverageVsTemp\<close>,
  shades \<open>233\<close> to \<open>358\<close>, both bounds \<open>0.15\<close> below the window: a temperature of
  \<open>358.1\<close> K, inside the window, is shaded on the three other charts and left unshaded on
  this one.
\<close>

theorem doe_window_bounds:
  "doe_area ThermoPlot_T50vsPressure = (- 40, 85)
   \<and> doe_area ThermoPlot_CoverageVsTemperature = (- 40, 85)
   \<and> doe_area Figures_T50vsPressure = (- 40 + 273.15, 85 + 273.15)
   \<and> doe_area Figures_CoverageVsTemp = (233, 358)
   \<and> fst (doe_area Figures_CoverageVsTemp) < - 40 + 273.15
   \<and> snd (doe_area Figures_CoverageVsTemp) < 85 + 273.15
   \<and> shaded ThermoPlot_T50vsPressure 358.1
   \<and> shaded ThermoPlot_CoverageVsTemperature 358.1
   \<and> shaded Figures_T50vsPressure 358.1
   \<and> \<not> shaded Figures_CoverageVsTemp 358.1"
  by (simp add: ThermoPlot_T50_area_def ThermoPlot_coverageT_area_def PanelT50vsPressure_area_def
      PanelCoverageVsTemp_area_def shaded_def ThermoPlot_celsius_def)

section \<open>The cells of the correlation table\<close>

lemma toFixed_close:
  assumes "\<bar>x\<bar> < 10 ^ 21"
  shows "\<bar>toFixed d x - x\<bar> \<le> 1 / (2 * 10 ^ d)"
proof -
  let ?p = "(10::real) ^ d"
  let ?n = "\<lfloor>\<bar>x\<bar> * ?p + 1 / 2\<rfloor>"
  have p: "0 < ?p" by simp
  have lo: "of_int ?n \<le> \<bar>x\<bar> * ?p + 1 / 2" by (rule of_int_floor_le)
  have hi: "\<bar>x\<bar> * ?p + 1 / 2 < of_int ?n + 1" by linarith
  have a: "\<bar>of_int ?n - \<bar>x\<bar> * ?p\<bar> \<le> 1 / 2" using lo hi by linarith
  have e: "of_int ?n / ?p - \<bar>x\<bar> = (of_int ?n - \<bar>x\<bar> * ?p) / ?p"
    using p by (simp add: field_simps)
  have "\<bar>(of_int ?n - \<bar>x\<bar> * ?p) / ?p\<bar> = \<bar>of_int ?n - \<bar>x\<bar> * ?p\<bar> / ?p"
    using p by (simp add: abs_divide)
  also have "\<dots> \<le> (1 / 2) / ?p"
    using a p by (rule divide_right_mono [OF _ less_imp_le])
  finally have m: "\<bar>of_int ?n / ?p - \<bar>x\<bar>\<bar> \<le> 1 / (2 * ?p)"
    unfolding e by simp
  have "toFixed d x - x = sgn x * (of_int ?n / ?p - \<bar>x\<bar>)"
    using assms by (simp add: toFixed_def algebra_simps sgn_if)
  then have "\<bar>toFixed d x - x\<bar> = \<bar>sgn x\<bar> * \<bar>of_int ?n / ?p - \<bar>x\<bar>\<bar>"
    by (simp add: abs_mult)
  also have "\<dots> \<le> \<bar>of_int ?n / ?p - \<bar>x\<bar>\<bar>"
    by (simp add: sgn_if)
  finally show ?thesis using m by linarith
qed

lemma toFixed_0: "toFixed d 0 = 0"
  by (simp add: toFixed_def)

lemma render_corr_cell_placeholder:
  "render_corr_cell val = Placeholder \<longleftrightarrow> val = Null \<or> val = Undefined \<or> val = NaN"
  by (cases val) (simp_all add: render_corr_cell_def number_cell_def Let_def)

lemma render_corr_cell_num:
  "\<exists>cell. render_corr_cell (Num x) = NumberCell cell \<and> cell_text cell = toFixed 2 x
          \<and> cell_title_value cell = toFixed 3 x"
  by (simp add: render_corr_cell_def number_cell_def Let_def)

text \<open>
  The copy of \<open>unnamed/part_003\<close> does what is asked of the table. For every entry it
  displays (row \<open>i\<close>, column \<open>j\<close> of a matrix with a row for each column name), the cell is
  the placeholder exactly when the entry is \<open>null\<close>, \<open>undefined\<close> or \<open>NaN\<close>, and a finite
  numeric entry is rendered as a number cell showing that number to two decimals
  (\<open>toFixed(2)\<close>, at most \<open>0.005\<close> away from the entry).
\<close>

lemma correlation_cells:
  assumes "i < length (columns c)" and "length (columns c) \<le> length (matrix c)"
    and "j < length (matrix c ! i)"
  shows "\<exists>rows. correlation_rows c = Inr rows
           \<and> length rows = length (columns c)
           \<and> length (snd (rows ! i)) = length (matrix c ! i)
           \<and> (snd (rows ! i) ! j = Placeholder
                \<longleftrightarrow> matrix c ! i ! j = Null \<or> matrix c ! i ! j = Undefined
                    \<or> matrix c ! i ! j = NaN)
           \<and> (\<forall>x. matrix c ! i ! j = Num x \<longrightarrow>
                (\<exists>cell. snd (rows ! i) ! j = NumberCell cell \<and> cell_text cell = toFixed 2 x
                        \<and> (\<bar>x\<bar> < 10 ^ 21 \<longrightarrow> \<bar>cell_text cell - x\<bar> \<le> 1 / 200)))"
proof -
  let ?rows = "map (\<lambda>i. (columns c ! i, map render_corr_cell (matrix c ! i)))
                 [0..<length (columns c)]"
  have rows: "correlation_rows c = Inr ?rows"
    using assms(2) by (simp add: correlation_rows_def)
  have cell: "snd (?rows ! i) ! j = render_corr_cell (matrix c ! i ! j)"
    using assms(1,3) by simp
  have close: "\<bar>toFixed 2 x - x\<bar> \<le> 1 / 200" if "\<bar>x\<bar> < 10 ^ 21" for x
    using toFixed_close [OF that, of 2] by simp
  have num: "\<exists>cell. render_corr_cell (Num x) = NumberCell cell \<and> cell_text cell = toFixed 2 x
                \<and> (\<bar>x\<bar> < 10 ^ 21 \<longrightarrow> \<bar>cell_text cell - x\<bar> \<le> 1 / 200)" for x
    using render_corr_cell_num [of x] close [of x] by auto
  have len: "length (snd (?rows ! i)) = length (matrix c ! i)"
    using assms(1) by simp
  show ?thesis
    apply (rule exI [of _ ?rows])
    apply (simp only: rows cell len render_corr_cell_placeholder)
    using num by auto
qed

lemma correlation_cells_example:
  "(\<exists>rows. correlation_rows \<lparr>columns = [''Eg_eV'', ''flat''],
                               matrix = [[Num 1, Null], [Null, NaN]]\<rparr> = Inr rows
       \<and> snd (rows ! 0) ! 1 = Placeholder)
   \<and> (\<exists>rows cell. correlation_rows \<lparr>columns = [''Eg_eV'', ''mu_eV''],
                               matrix = [[Num 1, Num (- 0.126)], [Num (- 0.126), Num 1]]\<rparr> = Inr rows
       \<and> snd (rows ! 0) ! 1 = NumberCell cell \<and> cell_text cell = - 0.13)"
proof -
  have a: "\<exists>rows. correlation_rows \<lparr>columns = [''Eg_eV'', ''flat''],
                               matrix = [[Num 1, Null], [Null, NaN]]\<rparr> = Inr rows
       \<and> snd (rows ! 0) ! 1 = Placeholder"
    using correlation_cells
      [of 0 "\<lparr>columns = [''Eg_eV'', ''flat''], matrix = [[Num 1, Null], [Null, NaN]]\<rparr>" 1]
    by auto
  have b: "\<exists>rows cell. correlation_rows \<lparr>columns = [''Eg_eV'', ''mu_eV''],
                               matrix = [[Num 1, Num (- 0.126)], [Num (- 0.126), Num 1]]\<rparr> = Inr rows
       \<and> snd (rows ! 0) ! 1 = NumberCell cell \<and> cell_text cell = - 0.13"
    using correlation_cells
      [of 0 "\<lparr>columns = [''Eg_eV'', ''mu_eV''],
              matrix = [[Num 1, Num (- 0.126)], [Num (- 0.126), Num 1]]\<rparr>" 1]
    by (auto simp: toFixed_def)
  show ?thesis using a b by blast
qed

text \<open>
  The copy of \<open>frontend/src/components/DescriptorDashboard.jsx\<close> never renders the
  placeholder: a \<open>null\<close> or \<open>undefined\<close> entry throws, a \<open>NaN\<close> entry is shown as the
  text \<open>NaN\<close>, and only a finite number gets the cell of the other copy.
\<close>

lemma render_corr_cell_unguarded_cases:
  "render_corr_cell_unguarded val \<noteq> Inr Placeholder
   \<and> ((\<exists>e. render_corr_cell_unguarded val = Inl e) \<longleftrightarrow> val = Null \<or> val = Undefined)
   \<and> (render_corr_cell_unguarded val = Inr NaNCell \<longleftrightarrow> val = NaN)
   \<and> render_corr_cell_unguarded (Num x) = Inr (render_corr_cell (Num x))"
  by (cases val) (simp_all add: render_corr_cell_unguarded_def render_corr_cell_def
                                number_cell_def Let_def)

lemma collect_Inl:
  "x \<in> set xs \<Longrightarrow> x = Inl e \<Longrightarrow> \<exists>e'. collect xs = Inl e'"
  by (induction xs) (auto split: sum.splits)

text \<open>
  A single \<open>null\<close> or \<open>undefined\<close> entry anywhere in the displayed matrix ends the
  rendering of the whole table with a \<open>TypeError\<close>.
\<close>

lemma correlation_rows_unguarded_throws:
  assumes "i < length (columns c)" and "j < length (matrix c ! i)"
    and "matrix c ! i ! j = Null \<or> matrix c ! i ! j = Undefined"
  shows "\<exists>e. correlation_rows_unguarded c = Inl e"
proof (cases "length (columns c) \<le> length (matrix c)")
  case False
  then show ?thesis by (simp add: correlation_rows_unguarded_def)
next
  case True
  let ?row = "\<lambda>i. case collect (map render_corr_cell_unguarded (matrix c ! i)) of
                     Inl e \<Rightarrow> Inl e
                   | Inr cells \<Rightarrow> Inr (columns c ! i, cells)"
  from assms(3) obtain e where e: "render_corr_cell_unguarded (matrix c ! i ! j) = Inl e"
    by (auto simp: render_corr_cell_unguarded_def)
  have "render_corr_cell_unguarded (matrix c ! i ! j)
          \<in> set (map render_corr_cell_unguarded (matrix c ! i))"
    using assms(2) by simp
  from collect_Inl [OF this e]
  obtain e' where "collect (map render_corr_cell_unguarded (matrix c ! i)) = Inl e'" ..
  then have r: "?row i = Inl e'" by simp
  have "?row i \<in> set (map ?row [0..<length (columns c)])"
    using assms(1) by simp
  from collect_Inl [OF this r]
  obtain e'' where "collect (map ?row [0..<length (columns c)]) = Inl e''" ..
  then show ?thesis
    using True by (simp add: correlation_rows_unguarded_def)
qed

text \<open>
  Claim C5. Every entry of the correlation matrix that is \<open>null\<close>, \<open>undefined\<close> or \<open>NaN\<close>
  is to be rendered as the placeholder and never as a number. For the correlation of a
  project with the constant column \<open>flat\<close>, whose entries are \<open>null\<close>, the dashboard of
  \<open>frontend/src/components/DescriptorDashboard.jsx\<close> throws a \<open>TypeError\<close> at
  \<open>val.toFixed(3)\<close> and renders no table at all, and it renders a \<open>NaN\<close> entry as the
  text \<open>NaN\<close>; the copy of \<open>unnamed/part_003\<close> renders the same matrix with the
  placeholder in each such cell.
\<close>

theorem correlation_null_entry_throws:
  "correlation_rows_unguarded
      \<lparr>columns = [''Eg_eV'', ''flat''], matrix = [[Num 1, Null], [Null, Null]]\<rparr>
     = Inl (TypeError ''Cannot read properties of null (reading 'toFixed')'')
   \<and> correlation_rows_unguarded \<lparr>columns = [''flat''], matrix = [[NaN]]\<rparr>
     = Inr [(''flat'', [NaNCell])]
   \<and> correlation_rows
      \<lparr>columns = [''Eg_eV'', ''flat''], matrix = [[Num 1, Null], [Null, Null]]\<rparr>
     = Inr [(''Eg_eV'',
             [NumberCell \<lparr>cell_text = 1, cell_title_value = 1,
                           cell_background = Rgba 59 130 246 0.8, cell_white = True\<rparr>,
              Placeholder]),
            (''flat'', [Placeholder, Placeholder])]
   \<and> correlation_rows \<lparr>columns = [''flat''], matrix = [[NaN]]\<rparr>
     = Inr [(''flat'', [Placeholder])]
   \<and> NaNCell \<noteq> Placeholder"
  by (simp add: correlation_rows_unguarded_def correlation_rows_def
                render_corr_cell_unguarded_def render_corr_cell_def number_cell_def
                toFixed_def Let_def)

section \<open>The heatmap of descriptor shifts\<close>

lemma foldr_max_Max: "foldr max xs (a::real) = Max (insert a (set xs))"
proof (induction xs)
  case Nil
  then show ?case by simp
next
  case (Cons x xs)
  have "Max (insert a (set (x # xs))) = Max (insert x (insert a (set xs)))"
    by (simp add: insert_commute)
  also have "\<dots> = max x (Max (insert a (set xs)))"
    by (rule Max_insert) auto
  finally show ?case using Cons by simp
qed

lemma maxAbs_Max:
  "maxAbs values = Max (insert 0.001 (abs ` {v \<in> set (concat values). v \<noteq> 0}))"
proof -
  have "set (map abs (allVals values)) = abs ` {v \<in> set (concat values). v \<noteq> 0}"
    by (auto simp: allVals_def)
  then show ?thesis
    unfolding maxAbs_def foldr_max_Max by simp
qed

lemma shift_value_missing:
  "map_of shiftsObj sys = None \<or> map_of shiftsObj sys = Some None
     \<or> (\<exists>m. map_of shiftsObj sys = Some (Some m) \<and> m d = None)
   \<Longrightarrow> shift_value shiftsObj sys d = 0"
  by (auto simp: shift_value_def)

lemma shift_value_present:
  "map_of shiftsObj sys = Some (Some m) \<Longrightarrow> m d = Some v \<Longrightarrow> shift_value shiftsObj sys d = v"
  by (simp add: shift_value_def)

text \<open>
  Claim C10. The heatmap has one row per system of the response and one cell per
  descriptor; the cell of system \<open>i\<close> and descriptor \<open>j\<close> renders the value
  \<open>shifts[sys]?.[d] ?? 0\<close>. Where the response has no shift for the pair (no entry for the
  system, a \<open>null\<close> entry, or no value for the descriptor), that value is the number \<open>0\<close>
  and the cell shows \<open>0\<close> like a shift that is zero, with no marker for a missing value;
  and the maximum of the colour scale is the largest magnitude among the values that
  are not zero, and at least \<open>0.001\<close>.
\<close>

theorem shifts_zero_filled:
  assumes "sd_shifts sd = Some shiftsObj" and "sd_pairs_found sd \<noteq> Some 0"
    and "systems = sort_systems (map fst shiftsObj)"
    and "values = shift_values shiftsObj systems"
    and "i < length systems" and "j < length descs"
  shows "\<exists>rows. PanelDescriptorShifts (Some sd) = Some rows
           \<and> length rows = length systems
           \<and> fst (rows ! i) = systemShort (systems ! i)
           \<and> length (snd (rows ! i)) = length descs
           \<and> snd (rows ! i) ! j = render_shift_cell (maxAbs values) (values ! i ! j)
           \<and> values ! i ! j = shift_value shiftsObj (systems ! i) (descs ! j)
           \<and> (map_of shiftsObj (systems ! i) = None \<or> map_of shiftsObj (systems ! i) = Some None
                \<or> (\<exists>m. map_of shiftsObj (systems ! i) = Some (Some m) \<and> m (descs ! j) = None)
               \<longrightarrow> values ! i ! j = 0 \<and> sc_text (snd (rows ! i) ! j) = 0
                   \<and> snd (rows ! i) ! j = render_shift_cell (maxAbs values) 0)
           \<and> maxAbs values = Max (insert 0.001 (abs ` {v \<in> set (concat values). v \<noteq> 0}))"
proof -
  let ?rows = "map (\<lambda>(sys, row). (systemShort sys, map (render_shift_cell (maxAbs values)) row))
                 (zip systems values)"
  have panel: "PanelDescriptorShifts (Some sd) = Some ?rows"
    using assms(1-4) by (simp add: PanelDescriptorShifts_def Let_def)
  have lv: "length values = length systems"
    using assms(4) by (simp add: shift_values_def)
  have vi: "values ! i = map (\<lambda>d. shift_value shiftsObj (systems ! i) d) descs"
    using assms(4,5) by (simp add: shift_values_def)
  have vij: "values ! i ! j = shift_value shiftsObj (systems ! i) (descs ! j)"
    using vi assms(6) by simp
  have row: "?rows ! i
      = (systemShort (systems ! i), map (render_shift_cell (maxAbs values)) (values ! i))"
    using assms(5) lv by simp
  have cell: "snd (?rows ! i) ! j = render_shift_cell (maxAbs values) (values ! i ! j)"
    using row vi assms(6) by simp
  have zero: "values ! i ! j = 0 \<and> sc_text (snd (?rows ! i) ! j) = 0
      \<and> snd (?rows ! i) ! j = render_shift_cell (maxAbs values) 0"
    if "map_of shiftsObj (systems ! i) = None \<or> map_of shiftsObj (systems ! i) = Some None
         \<or> (\<exists>m. map_of shiftsObj (systems ! i) = Some (Some m) \<and> m (descs ! j) = None)"
    using shift_value_missing [OF that] vij cell by (simp add: render_shift_cell_def toFixed_0)
  show ?thesis
    apply (rule exI [of _ ?rows])
    apply (intro conjI)
           apply (rule panel)
          apply (simp add: lv)
         apply (simp add: row)
        apply (simp add: row vi)
       apply (rule cell)
      apply (rule vij)
     using zero apply blast
    apply (rule maxAbs_Max)
    done
qed

theorem shifts_zero_filled_witness:
  "\<exists>rows. PanelDescriptorShifts
             (Some \<lparr>sd_shifts = Some [(''2Zr'', Some [''Eg_eV'' \<mapsto> - 0.5])],
                    sd_pairs_found = Some 1\<rparr>) = Some rows
          \<and> sc_text (snd (rows ! 0) ! 1) = 0
          \<and> maxAbs [[- 0.5, 0, 0, 0, 0]] = Max {0.001, 0.5}"
proof -
  let ?obj = "[(''2Zr'', Some [''Eg_eV'' \<mapsto> - 0.5 :: real])]"
  let ?sd = "\<lparr>sd_shifts = Some ?obj, sd_pairs_found = Some 1\<rparr>"
  have s: "sort_systems [''2Zr''] = [''2Zr'']" by (simp add: sort_systems_def)
  have v: "shift_values ?obj [''2Zr''] = [[- 0.5, 0, 0, 0, 0]]"
    by (simp add: shift_values_def shift_value_def descs_def)
  have "{v \<in> set (concat [[- 0.5, 0, 0, 0, 0 :: real]]). v \<noteq> 0} = {- 0.5}"
    by auto
  then have m: "abs ` {v \<in> set (concat [[- 0.5, 0, 0, 0, 0 :: real]]). v \<noteq> 0} = {0.5}"
    by simp
  have h1: "sd_shifts ?sd = Some ?obj" and h2: "sd_pairs_found ?sd \<noteq> Some 0"
    and h3: "[''2Zr''] = sort_systems (map fst ?obj)"
    and h5: "0 < length [''2Zr'']" and h6: "1 < length descs"
    by (simp_all add: s descs_def)
  have h4: "[[- 0.5, 0, 0, 0, 0]] = shift_values ?obj [''2Zr'']"
    by (rule v [symmetric])
  have miss: "\<exists>m. map_of ?obj ([''2Zr''] ! 0) = Some (Some m) \<and> m (descs ! 1) = None"
    by (simp add: descs_def)
  from shifts_zero_filled [OF h1 h2 h3 h4 h5 h6] miss
  obtain rows where "PanelDescriptorShifts (Some ?sd) = Some rows"
    and "sc_text (snd (rows ! 0) ! 1) = 0"
    and "maxAbs [[- 0.5, 0, 0, 0, 0]]
           = Max (insert 0.001 (abs ` {v \<in> set (concat [[- 0.5, 0, 0, 0, 0 :: real]]). v \<noteq> 0}))"
    by blast
  then show ?thesis unfolding m by blast
qed

section \<open>Sampling the coverage curves\<close>

lemma step_of_pos: "0 < step_of grid"
  by (simp add: step_of_def)

lemma filter_stride_skip:
  assumes "i mod s = 0" and "0 < s"
  shows "filter (\<lambda>j. j mod s = 0) [Suc i..<i + s] = []"
proof -
  have "j mod s \<noteq> 0" if "Suc i \<le> j" and "j < i + s" for j
  proof
    assume "j mod s = 0"
    then have "s dvd j - i"
      using assms(1) by (simp add: dvd_diff_nat mod_eq_0_iff_dvd)
    moreover have "0 < j - i" and "j - i < s" using that by auto
    ultimately show False by (auto dest: dvd_imp_le)
  qed
  then show ?thesis by (auto simp: filter_empty_conv)
qed

lemma filter_stride_from:
  assumes "i mod s = 0" and "0 < s" and "i < n"
  shows "filter (\<lambda>j. j mod s = 0) [i..<n] = i # filter (\<lambda>j. j mod s = 0) [i + s..<n]"
proof -
  have "[i..<n] = i # [Suc i..<n]" using assms(3) by (simp add: upt_conv_Cons)
  then have a: "filter (\<lambda>j. j mod s = 0) [i..<n] = i # filter (\<lambda>j. j mod s = 0) [Suc i..<n]"
    using assms(1) by simp
  show ?thesis
  proof (cases "i + s \<le> n")
    case True
    then obtain k where k: "n = (i + s) + k" by (auto dest: le_Suc_ex)
    have "Suc i \<le> i + s" using assms(2) by simp
    then have "[Suc i..<n] = [Suc i..<i + s] @ [i + s..<n]"
      unfolding k by (rule upt_add_eq_append)
    then show ?thesis using a filter_stride_skip [OF assms(1,2)] by simp
  next
    case False
    then have "n \<le> i + s" by simp
    have "filter (\<lambda>j. j mod s = 0) [Suc i..<n] = []"
    proof -
      have "set [Suc i..<n] \<subseteq> set [Suc i..<i + s]" using \<open>n \<le> i + s\<close> by auto
      then show ?thesis
        using filter_stride_skip [OF assms(1,2)] by (auto simp: filter_empty_conv)
    qed
    moreover have "filter (\<lambda>j. j mod s = 0) [i + s..<n] = []" using \<open>n \<le> i + s\<close> by simp
    ultimately show ?thesis using a by (simp only:)
  qed
qed

lemma sample_from_stride:
  "i mod step_of grid = 0 \<Longrightarrow>
   sample_from key covData systems grid i
     = map (point_at key covData systems grid) (filter (\<lambda>j. j mod step_of grid = 0) [i..<length grid])"
proof (induction key covData systems grid i rule: sample_from.induct)
  case (1 key covData systems grid i)
  show ?case
  proof (cases "i < length grid")
    case True
    have "(i + step_of grid) mod step_of grid = 0" using "1.prems" by simp
    then have ih: "sample_from key covData systems grid (i + step_of grid)
       = map (point_at key covData systems grid) (filter (\<lambda>j. j mod step_of grid = 0) [i + step_of grid..<length grid])"
      using "1.IH" True by simp
    show ?thesis
      using True ih filter_stride_from [OF "1.prems" step_of_pos True]
      by (subst sample_from.simps) simp
  next
    case False
    then show ?thesis by (subst sample_from.simps) simp
  qed
qed

lemma sample_from_0:
  "sample_from key covData systems grid 0
     = map (point_at key covData systems grid) (stride_indices (length grid) (step_of grid))"
  using sample_from_stride [of 0 grid key covData systems] by (simp add: stride_indices_def)

lemma stride_indices_1: "stride_indices n (Suc 0) = [0..<n]"
  by (simp add: stride_indices_def)

lemma step_of_small: "length grid \<le> 50 \<Longrightarrow> step_of grid = 1"
  by (auto simp: step_of_def max_def dest: le_neq_implies_less)

lemma add_series_cases:
  "add_series d i s pt = pt \<or>
   (\<exists>data cov. map_of d s = Some (Some data) \<and> coverages data = Some cov \<and> i < length cov
       \<and> add_series d i s pt = pt(systemShort s \<mapsto> cov ! i))"
  by (auto simp: add_series_def split: option.splits)

lemma fold_add_series_sources:
  "fold (add_series d i) systems pt k = Some v \<Longrightarrow>
     pt k = Some v \<or>
     (\<exists>s\<in>set systems. \<exists>data cov. map_of d s = Some (Some data) \<and> coverages data = Some cov
         \<and> i < length cov \<and> systemShort s = k \<and> v = cov ! i)"
proof (induction systems arbitrary: pt)
  case Nil
  then show ?case by simp
next
  case (Cons s systems)
  from Cons.prems have "fold (add_series d i) systems (add_series d i s pt) k = Some v" by simp
  from Cons.IH [OF this] show ?case
  proof
    assume a: "add_series d i s pt k = Some v"
    from add_series_cases [of d i s pt] show ?thesis
    proof
      assume "add_series d i s pt = pt"
      with a show ?thesis by simp
    next
      assume "\<exists>data cov. map_of d s = Some (Some data) \<and> coverages data = Some cov \<and> i < length cov
       \<and> add_series d i s pt = pt(systemShort s \<mapsto> cov ! i)"
      then obtain data cov where m: "map_of d s = Some (Some data)" "coverages data = Some cov" "i < length cov"
        and e: "add_series d i s pt = pt(systemShort s \<mapsto> cov ! i)" by blast
      show ?thesis
      proof (cases "systemShort s = k")
        case True
        with a e have "v = cov ! i" by simp
        with m True show ?thesis by auto
      next
        case False
        with a e show ?thesis by simp
      qed
    qed
  next
    assume "\<exists>s\<in>set systems. \<exists>data cov. map_of d s = Some (Some data) \<and> coverages data = Some cov
         \<and> i < length cov \<and> systemShort s = k \<and> v = cov ! i"
    then show ?thesis by auto
  qed
qed

lemma fold_add_series_other:
  "\<forall>s\<in>set systems. systemShort s \<noteq> k \<Longrightarrow> fold (add_series d i) systems pt k = pt k"
proof (induction systems arbitrary: pt)
  case Nil
  then show ?case by simp
next
  case (Cons s systems)
  then have "fold (add_series d i) systems (add_series d i s pt) k = add_series d i s pt k" by simp
  moreover have "add_series d i s pt k = pt k"
    using Cons.prems add_series_cases [of d i s pt] by auto
  ultimately show ?case by simp
qed

lemma fold_add_series_system:
  assumes "distinct (map systemShort systems)" and "s \<in> set systems"
    and "map_of d s = Some (Some data)" and "coverages data = Some cov" and "i < length cov"
  shows "fold (add_series d i) systems pt (systemShort s) = Some (cov ! i)"
  using assms(1,2)
proof (induction systems arbitrary: pt)
  case Nil
  then show ?case by simp
next
  case (Cons t systems)
  show ?case
  proof (cases "s = t")
    case True
    have "\<forall>u\<in>set systems. systemShort u \<noteq> systemShort s" using Cons.prems(1) True by (auto simp: image_iff)
    then have "fold (add_series d i) systems (add_series d i s pt) (systemShort s) = add_series d i s pt (systemShort s)"
      by (rule fold_add_series_other)
    moreover have "add_series d i s pt (systemShort s) = Some (cov ! i)"
      using assms(3-5) by (simp add: add_series_def)
    ultimately show ?thesis using True by simp
  next
    case False
    then have "s \<in> set systems" using Cons.prems(2) by simp
    moreover have "distinct (map systemShort systems)" using Cons.prems(1) by simp
    ultimately show ?thesis using Cons.IH by simp
  qed
qed

lemma point_at_grid_point: "grid_point key d systems grid i (point_at key d systems grid i)"
  unfolding grid_point_def point_at_def
proof (intro conjI allI impI ballI)
  fix k v assume "fold (add_series d i) systems [key \<mapsto> grid ! i] k = Some v"
  from fold_add_series_sources [OF this]
  show "(k = key \<and> v = grid ! i) \<or>
        (\<exists>s\<in>set systems. \<exists>data cov. map_of d s = Some (Some data) \<and> coverages data = Some cov
            \<and> i < length cov \<and> systemShort s = k \<and> v = cov ! i)"
    by (auto split: if_splits)
next
  assume "\<forall>s\<in>set systems. systemShort s \<noteq> key"
  then show "fold (add_series d i) systems [key \<mapsto> grid ! i] key = Some (grid ! i)"
    by (simp add: fold_add_series_other)
next
  fix s data cov
  assume "distinct (map systemShort systems)" "s \<in> set systems"
    "map_of d s = Some (Some data) \<and> coverages data = Some cov \<and> i < length cov"
  then show "fold (add_series d i) systems [key \<mapsto> grid ! i] (systemShort s) = Some (cov ! i)"
    by (simp add: fold_add_series_system)
qed

lemma sample_from_stride_sampled:
  "stride_sampled key d systems grid (sample_from key d systems grid 0)"
  unfolding stride_sampled_def Let_def sample_from_0 step_of_def [symmetric]
  using step_of_small [of grid] by (auto simp: point_at_grid_point stride_indices_1)

lemma PanelCoverageVsTemp_stride:
  assumes "PanelCoverageVsTemp (Some d) = Some c"
  shows "\<exists>sysData temps. map_of d (hd (sort_systems (map fst d))) = Some (Some sysData)
          \<and> temperatures_K sysData = Some temps
          \<and> stride_sampled ''T'' d (sort_systems (map fst d)) temps (chart_data c)"
proof -
  obtain refSys rest where srt: "sort_systems (map fst d) = refSys # rest"
    using assms by (cases "sort_systems (map fst d)") (simp_all add: PanelCoverageVsTemp_def)
  obtain sysData where sd: "map_of d refSys = Some (Some sysData)"
    using assms srt by (cases "map_of d refSys") (auto simp: PanelCoverageVsTemp_def split: option.splits)
  obtain temps where t: "temperatures_K sysData = Some temps"
    using assms srt sd by (cases "temperatures_K sysData") (simp_all add: PanelCoverageVsTemp_def)
  have "chart_data c = sample_from ''T'' d (refSys # rest) temps 0"
    using assms srt sd t by (auto simp: PanelCoverageVsTemp_def split: if_splits)
  then show ?thesis
    using srt sd t sample_from_stride_sampled [of "''T''" d "refSys # rest" temps] by simp
qed

lemma PanelCoverageVsPressure_stride:
  assumes "PanelCoverageVsPressure (Some d) = Some c"
  shows "\<exists>sysData pressures. map_of d (hd (sort_systems (map fst d))) = Some (Some sysData)
          \<and> pressures_bar sysData = Some pressures
          \<and> stride_sampled ''P'' d (sort_systems (map fst d)) pressures (chart_data c)"
proof -
  obtain refSys rest where srt: "sort_systems (map fst d) = refSys # rest"
    using assms by (cases "sort_systems (map fst d)") (simp_all add: PanelCoverageVsPressure_def)
  obtain sysData where sd: "map_of d refSys = Some (Some sysData)"
    using assms srt by (cases "map_of d refSys") (auto simp: PanelCoverageVsPressure_def split: option.splits)
  obtain pressures where t: "pressures_bar sysData = Some pressures"
    using assms srt sd by (cases "pressures_bar sysData") (simp_all add: PanelCoverageVsPressure_def)
  have "chart_data c = sample_from ''P'' d (refSys # rest) pressures 0"
    using assms srt sd t by (auto simp: PanelCoverageVsPressure_def split: if_splits)
  then show ?thesis
    using srt sd t sample_from_stride_sampled [of "''P''" d "refSys # rest" pressures] by simp
qed

text \<open>
  Claim C7. The two coverage panels chart a stride subsequence of the grid of the
  reference system (the first system in display order): for a grid of \<open>n\<close> points and
  \<open>s = max(1, floor(n / 50))\<close> the chart has one point per index \<open>0, s, 2s, ...\<close> below
  \<open>n\<close>, in grid order, and the point of index \<open>i\<close> holds the grid value at \<open>i\<close> and the
  systems' coverages at \<open>i\<close>, every value copied from the response; with at most 50 grid
  points, every grid point is charted.
\<close>

theorem coverage_panels_stride:
  "(PanelCoverageVsTemp (Some d) = Some c \<longrightarrow>
      (\<exists>sysData temps. map_of d (hd (sort_systems (map fst d))) = Some (Some sysData)
          \<and> temperatures_K sysData = Some temps
          \<and> stride_sampled ''T'' d (sort_systems (map fst d)) temps (chart_data c)))
   \<and> (PanelCoverageVsPressure (Some d) = Some c' \<longrightarrow>
      (\<exists>sysData pressures. map_of d (hd (sort_systems (map fst d))) = Some (Some sysData)
          \<and> pressures_bar sysData = Some pressures
          \<and> stride_sampled ''P'' d (sort_systems (map fst d)) pressures (chart_data c')))"
  using PanelCoverageVsTemp_stride PanelCoverageVsPressure_stride by blast


theorem coverage_panels_stride_witness:
  "PanelCoverageVsTemp (Some [(''a'', Some \<lparr>temperatures_K = Some [300, 310], pressures_bar = Some [1, 2], coverages = Some [0.9, 0.8]\<rparr>)]) \<noteq> None
   \<and> stride_sampled ''T'' [(''a'', Some \<lparr>temperatures_K = Some [300, 310], pressures_bar = Some [1, 2], coverages = Some [0.9, 0.8]\<rparr>)] [''a''] [300, 310]
        (chart_data (the (PanelCoverageVsTemp (Some [(''a'', Some \<lparr>temperatures_K = Some [300, 310], pressures_bar = Some [1, 2], coverages = Some [0.9, 0.8]\<rparr>)]))))
   \<and> PanelCoverageVsPressure (Some [(''a'', Some \<lparr>temperatures_K = Some [300, 310], pressures_bar = Some [1, 2], coverages = Some [0.9, 0.8]\<rparr>)]) \<noteq> None
   \<and> stride_sampled ''P'' [(''a'', Some \<lparr>temperatures_K = Some [300, 310], pressures_bar = Some [1, 2], coverages = Some [0.9, 0.8]\<rparr>)] [''a''] [1, 2]
        (chart_data (the (PanelCoverageVsPressure (Some [(''a'', Some \<lparr>temperatures_K = Some [300, 310], pressures_bar = Some [1, 2], coverages = Some [0.9, 0.8]\<rparr>)]))))"
proof -
  let ?d = "[(''a'', Some \<lparr>temperatures_K = Some [300, 310], pressures_bar = Some [1, 2], coverages = Some [0.9, 0.8]\<rparr>)]"
  let ?ct = "the (PanelCoverageVsTemp (Some ?d))"
  let ?cp = "the (PanelCoverageVsPressure (Some ?d))"
  have s: "sort_systems [''a''] = [''a'']" by (simp add: sort_systems_def)
  have tn: "PanelCoverageVsTemp (Some ?d) \<noteq> None"
    by (simp add: PanelCoverageVsTemp_def s)
  have pn: "PanelCoverageVsPressure (Some ?d) \<noteq> None"
    by (simp add: PanelCoverageVsPressure_def s)
  note th = coverage_panels_stride [of ?d ?ct ?cp]
  from tn have "PanelCoverageVsTemp (Some ?d) = Some ?ct" by (rule option.collapse [symmetric, OF _] ) 
  with th have "stride_sampled ''T'' ?d [''a''] [300, 310] (chart_data ?ct)"
    by (auto simp: s)
  moreover from pn have "PanelCoverageVsPressure (Some ?d) = Some ?cp" by (rule option.collapse [symmetric])
  with th have "stride_sampled ''P'' ?d [''a''] [1, 2] (chart_data ?cp)"
    by (auto simp: s)
  ultimately show ?thesis using tn pn by blast
qed

section \<open>Coverage and the desorption midpoint\<close>

lemma K_eq_nonneg: "0 \<le> K0 p \<Longrightarrow> 0 \<le> K_eq p T"
  by (simp add: K_eq_def)

lemma langmuir_bounds:
  fixes x :: real
  assumes "0 \<le> x"
  shows "0 \<le> x / (1 + x)" and "x / (1 + x) < 1"
  using assms by (simp_all add: field_simps)

lemma langmuir_mono:
  fixes x y :: real
  assumes "0 \<le> x" and "x \<le> y"
  shows "x / (1 + x) \<le> y / (1 + y)"
proof -
  have "x * (1 + y) \<le> y * (1 + x)" using assms by (simp add: algebra_simps)
  moreover have "0 < 1 + x" and "0 < 1 + y" using assms by auto
  ultimately show ?thesis by (simp add: frac_le_eq field_simps)
qed

text \<open>
  Claim C1. For a non-negative prefactor, a positive gas constant, a positive temperature
  \<open>T\<close> and pressures \<open>0 \<le> P \<le> P'\<close>, the Langmuir coverage with van't Hoff equilibrium
  constant lies in \<open>[0, 1]\<close> and does not decrease from \<open>P\<close> to \<open>P'\<close>.
\<close>

theorem coverage_bounded_monotone:
  assumes "0 \<le> K0 p" and "0 < R_gas p" and "0 < T" and "0 \<le> P" and "P \<le> P'"
  shows "0 \<le> coverage p T P \<and> coverage p T P \<le> 1 \<and> coverage p T P \<le> coverage p T P'"
proof -
  have k: "0 \<le> K_eq p T" using assms(1) by (rule K_eq_nonneg)
  have x: "0 \<le> K_eq p T * P" using k assms(4) by simp
  have xy: "K_eq p T * P \<le> K_eq p T * P'" using k assms(5) by (rule mult_left_mono[rotated])
  show ?thesis
    unfolding coverage_def
    using langmuir_bounds [OF x] langmuir_mono [OF x xy] by auto
qed

theorem coverage_bounded_monotone_witness:
  "0 \<le> coverage \<lparr>K0 = 1 / 2, delta_H = - 1, R_gas = 1\<rparr> 300 1
   \<and> coverage \<lparr>K0 = 1 / 2, delta_H = - 1, R_gas = 1\<rparr> 300 1 \<le> 1
   \<and> coverage \<lparr>K0 = 1 / 2, delta_H = - 1, R_gas = 1\<rparr> 300 1
       \<le> coverage \<lparr>K0 = 1 / 2, delta_H = - 1, R_gas = 1\<rparr> 300 10"
  using coverage_bounded_monotone [of "\<lparr>K0 = 1 / 2, delta_H = - 1, R_gas = 1\<rparr>" 300 1 10]
  by simp


lemma increasing_onD: "increasing_on g lo hi \<Longrightarrow> lo \<le> x \<Longrightarrow> x \<le> y \<Longrightarrow> y \<le> hi \<Longrightarrow> g x \<le> g y"
  by (simp add: increasing_on_def)

lemma decreasing_onD: "decreasing_on g lo hi \<Longrightarrow> lo \<le> x \<Longrightarrow> x \<le> y \<Longrightarrow> y \<le> hi \<Longrightarrow> g y \<le> g x"
  by (simp add: decreasing_on_def)

lemma increasing_on_sub:
  "increasing_on g lo hi \<Longrightarrow> lo \<le> lo' \<Longrightarrow> hi' \<le> hi \<Longrightarrow> increasing_on g lo' hi'"
  unfolding increasing_on_def by (meson order_trans)

lemma decreasing_on_sub:
  "decreasing_on g lo hi \<Longrightarrow> lo \<le> lo' \<Longrightarrow> hi' \<le> hi \<Longrightarrow> decreasing_on g lo' hi'"
  unfolding decreasing_on_def by (meson order_trans)

lemma bisect_narrows:
  assumes mono: "increasing_on g lo hi \<or> decreasing_on g lo hi"
    and r: "lo \<le> r" "r \<le> hi" "g r = 0"
    and far: "\<not> \<bar>g ((lo + hi) / 2)\<bar> < eps" and eps: "0 < eps"
  shows "(g lo * g ((lo + hi) / 2) \<le> 0 \<longrightarrow> r \<le> (lo + hi) / 2)
       \<and> (\<not> g lo * g ((lo + hi) / 2) \<le> 0 \<longrightarrow> (lo + hi) / 2 \<le> r)"
proof -
  let ?m = "(lo + hi) / 2"
  have m: "lo \<le> ?m" "?m \<le> hi" using r by auto
  have nz: "g ?m \<noteq> 0" using far eps by auto
  from mono show ?thesis
  proof
    assume inc: "increasing_on g lo hi"
    have glo: "g lo \<le> 0" using increasing_onD [OF inc order_refl r(1,2)] r(3) by simp
    have glm: "g lo \<le> g ?m" using increasing_onD [OF inc order_refl m] .
    show ?thesis
    proof (intro conjI impI)
      assume p: "g lo * g ?m \<le> 0"
      have pos: "0 < g ?m"
      proof (rule ccontr)
        assume "\<not> 0 < g ?m"
        then have neg: "g ?m < 0" using nz by auto
        then have "g lo < 0" using glm by auto
        then have "0 < g lo * g ?m" using neg by (rule mult_neg_neg)
        then show False using p by auto
      qed
      show "r \<le> ?m"
      proof (rule ccontr)
        assume "\<not> r \<le> ?m"
        then have le: "?m \<le> r" by auto
        have "g ?m \<le> g r" using increasing_onD [OF inc m(1) le r(2)] .
        then show False using pos r(3) by auto
      qed
    next
      assume p: "\<not> g lo * g ?m \<le> 0"
      then have "0 < g lo * g ?m" by auto
      then have neg: "g ?m < 0" using glo by (auto simp: zero_less_mult_iff)
      show "?m \<le> r"
      proof (rule ccontr)
        assume "\<not> ?m \<le> r"
        then have le: "r \<le> ?m" by auto
        have "g r \<le> g ?m" using increasing_onD [OF inc r(1) le m(2)] .
        then show False using neg r(3) by auto
      qed
    qed
  next
    assume dec: "decreasing_on g lo hi"
    have glo: "0 \<le> g lo" using decreasing_onD [OF dec order_refl r(1,2)] r(3) by simp
    have glm: "g ?m \<le> g lo" using decreasing_onD [OF dec order_refl m] .
    show ?thesis
    proof (intro conjI impI)
      assume p: "g lo * g ?m \<le> 0"
      have neg: "g ?m < 0"
      proof (rule ccontr)
        assume "\<not> g ?m < 0"
        then have pos: "0 < g ?m" using nz by auto
        then have "0 < g lo" using glm by auto
        then have "0 < g lo * g ?m" using pos by (rule mult_pos_pos)
        then show False using p by auto
      qed
      show "r \<le> ?m"
      proof (rule ccontr)
        assume "\<not> r \<le> ?m"
        then have le: "?m \<le> r" by auto
        have "g r \<le> g ?m" using decreasing_onD [OF dec m(1) le r(2)] .
        then show False using neg r(3) by auto
      qed
    next
      assume p: "\<not> g lo * g ?m \<le> 0"
      then have "0 < g lo * g ?m" by auto
      then have pos: "0 < g ?m" using glo by (auto simp: zero_less_mult_iff)
      show "?m \<le> r"
      proof (rule ccontr)
        assume "\<not> ?m \<le> r"
        then have le: "r \<le> ?m" by auto
        have "g ?m \<le> g r" using decreasing_onD [OF dec r(1) le m(2)] .
        then show False using pos r(3) by auto
      qed
    qed
  qed
qed

lemma bisect_returns_within:
  assumes near: "\<And>x. \<bar>x - r\<bar> < d \<Longrightarrow> \<bar>g x\<bar> < eps" and eps: "0 < eps" and root: "g r = 0"
  shows "increasing_on g lo hi \<or> decreasing_on g lo hi \<Longrightarrow> lo \<le> r \<Longrightarrow> r \<le> hi
         \<Longrightarrow> hi - lo < d * 2 ^ n \<Longrightarrow>
         \<exists>T. bisect g eps lo hi = Some T \<and> lo \<le> T \<and> T \<le> hi \<and> \<bar>g T\<bar> < eps"
proof (induction n arbitrary: lo hi)
  case 0
  let ?m = "(lo + hi) / 2"
  have m: "lo \<le> ?m" "?m \<le> hi" using 0 by auto
  have "\<bar>?m - r\<bar> < d" using 0 by (auto simp: abs_if field_simps)
  then have c: "\<bar>g ?m\<bar> < eps" by (rule near)
  then have "bisect g eps lo hi = Some ?m" by (subst bisect.simps) simp
  then show ?case using m c by blast
next
  case (Suc n)
  let ?m = "(lo + hi) / 2"
  have m: "lo \<le> ?m" "?m \<le> hi" using Suc.prems by auto
  show ?case
  proof (cases "\<bar>g ?m\<bar> < eps")
    case True
    then have "bisect g eps lo hi = Some ?m" by (subst bisect.simps) simp
    then show ?thesis using m True by blast
  next
    case False
    note nar = bisect_narrows [OF Suc.prems(1,2,3) root False eps]
    show ?thesis
    proof (cases "g lo * g ?m \<le> 0")
      case True
      then have rm: "r \<le> ?m" using nar by blast
      have w: "?m - lo < d * 2 ^ n" using Suc.prems(4) by (simp add: field_simps)
      have mo: "increasing_on g lo ?m \<or> decreasing_on g lo ?m"
        using Suc.prems(1) m(2) increasing_on_sub [of g lo hi lo ?m] decreasing_on_sub [of g lo hi lo ?m]
        by blast
      from Suc.IH [OF mo Suc.prems(2) rm w]
      obtain T where T: "bisect g eps lo ?m = Some T" "lo \<le> T" "T \<le> ?m" "\<bar>g T\<bar> < eps" by blast
      have "bisect g eps lo hi = bisect g eps lo ?m"
        using False True by (subst bisect.simps) simp
      then show ?thesis using T m by (intro exI [of _ T]) auto
    next
      case False2: False
      then have rm: "?m \<le> r" using nar by blast
      have w: "hi - ?m < d * 2 ^ n" using Suc.prems(4) by (simp add: field_simps)
      have mo: "increasing_on g ?m hi \<or> decreasing_on g ?m hi"
        using Suc.prems(1) m(1) increasing_on_sub [of g lo hi ?m hi] decreasing_on_sub [of g lo hi ?m hi]
        by blast
      from Suc.IH [OF mo rm Suc.prems(3) w]
      obtain T where T: "bisect g eps ?m hi = Some T" "?m \<le> T" "T \<le> hi" "\<bar>g T\<bar> < eps" by blast
      have "bisect g eps lo hi = bisect g eps ?m hi"
        using False False2 by (subst bisect.simps) simp
      then show ?thesis using T m by (intro exI [of _ T]) auto
    qed
  qed
qed

lemma bisect_finds_root:
  assumes mono: "increasing_on g lo hi \<or> decreasing_on g lo hi"
    and r: "lo \<le> r" "r \<le> hi" "g r = 0"
    and cont: "isCont g r" and eps: "0 < eps"
  shows "\<exists>T. bisect g eps lo hi = Some T \<and> lo \<le> T \<and> T \<le> hi \<and> \<bar>g T\<bar> < eps"
proof -
  from cont have "g \<midarrow>r\<rightarrow> g r" by (simp add: isCont_def)
  then obtain d where d: "0 < d" and near: "\<And>x. x \<noteq> r \<Longrightarrow> \<bar>x - r\<bar> < d \<Longrightarrow> \<bar>g x - g r\<bar> < eps"
    using eps unfolding LIM_def dist_real_def by blast
  have near': "\<bar>g x\<bar> < eps" if "\<bar>x - r\<bar> < d" for x
  proof (cases "x = r")
    case True
    then show ?thesis using r(3) eps by simp
  next
    case False
    then show ?thesis using near [OF False that] r(3) by simp
  qed
  obtain n :: nat where "(hi - lo) / d < 2 ^ n"
    using real_arch_pow [of 2 "(hi - lo) / d"] by auto
  then have "hi - lo < d * 2 ^ n" using d by (simp add: field_simps)
  from bisect_returns_within [of r d g eps lo hi n, OF near' eps r(3) mono r(1,2) this]
  show ?thesis .
qed


lemma K_eq_increasing:
  assumes "0 \<le> K0 p" and "0 < R_gas p" and "0 \<le> delta_H p" and "0 < x" and "x \<le> y"
  shows "K_eq p x \<le> K_eq p y"
proof -
  have "delta_H p / (R_gas p * y) \<le> delta_H p / (R_gas p * x)"
    using assms by (intro divide_left_mono) (auto simp: mult_left_mono)
  then have "exp (- delta_H p / (R_gas p * x)) \<le> exp (- delta_H p / (R_gas p * y))"
    by simp
  then show ?thesis using assms(1) by (simp add: K_eq_def mult_left_mono)
qed

lemma K_eq_decreasing:
  assumes "0 \<le> K0 p" and "0 < R_gas p" and "delta_H p \<le> 0" and "0 < x" and "x \<le> y"
  shows "K_eq p y \<le> K_eq p x"
proof -
  have "(- delta_H p) / (R_gas p * y) \<le> (- delta_H p) / (R_gas p * x)"
    using assms by (intro divide_left_mono) (auto simp: mult_left_mono)
  then have "exp (- delta_H p / (R_gas p * y)) \<le> exp (- delta_H p / (R_gas p * x))"
    by simp
  then show ?thesis using assms(1) by (simp add: K_eq_def mult_left_mono)
qed

lemma coverage_mono_K:
  assumes "0 \<le> P" and "0 \<le> K_eq p x" and "K_eq p x \<le> K_eq p y"
  shows "coverage p x P \<le> coverage p y P"
  unfolding coverage_def
  using assms by (intro langmuir_mono) (auto simp: mult_right_mono)

lemma coverage_monotone_T:
  assumes "0 \<le> K0 p" and "0 < R_gas p" and "0 \<le> P" and "0 < lo"
  shows "increasing_on (\<lambda>T. coverage p T P - 1 / 2) lo hi
       \<or> decreasing_on (\<lambda>T. coverage p T P - 1 / 2) lo hi"
proof (cases "0 \<le> delta_H p")
  case True
  have "coverage p x P \<le> coverage p y P" if "lo \<le> x" "x \<le> y" for x y
    using that assms True
    by (intro coverage_mono_K K_eq_increasing K_eq_nonneg) auto
  then show ?thesis by (auto simp: increasing_on_def)
next
  case False
  have "coverage p y P \<le> coverage p x P" if "lo \<le> x" "x \<le> y" for x y
    using that assms False
    by (intro coverage_mono_K K_eq_decreasing K_eq_nonneg) auto
  then show ?thesis by (auto simp: decreasing_on_def)
qed

lemma coverage_isCont_T:
  assumes "0 \<le> K0 p" and "0 < R_gas p" and "0 \<le> P" and "0 < T"
  shows "isCont (\<lambda>T. coverage p T P - 1 / 2) T"
proof -
  have "0 \<le> K0 p * exp (- delta_H p / (R_gas p * T)) * P"
    using assms by simp
  then have "1 + K0 p * exp (- delta_H p / (R_gas p * T)) * P \<noteq> 0" by linarith
  moreover have "R_gas p * T \<noteq> 0" using assms by simp
  ultimately show ?thesis
    unfolding coverage_def K_eq_def
    by (intro continuous_intros) auto
qed

lemma coverage_crossing_iff:
  assumes "0 \<le> K0 p" and "0 < R_gas p" and "0 \<le> P" and "0 < lo" and "lo \<le> hi"
  shows "(\<exists>T. lo \<le> T \<and> T \<le> hi \<and> coverage p T P = 1 / 2)
     \<longleftrightarrow> (coverage p lo P - 1 / 2) * (coverage p hi P - 1 / 2) \<le> 0"
proof
  let ?g = "\<lambda>T. coverage p T P - 1 / 2"
  assume "\<exists>T. lo \<le> T \<and> T \<le> hi \<and> coverage p T P = 1 / 2"
  then obtain r where r: "lo \<le> r" "r \<le> hi" "?g r = 0" by auto
  from coverage_monotone_T [OF assms(1-4), of hi]
  show "?g lo * ?g hi \<le> 0"
  proof
    assume inc: "increasing_on ?g lo hi"
    have "?g lo \<le> 0" using increasing_onD [OF inc order_refl r(1,2)] r(3) by simp
    moreover have "0 \<le> ?g hi" using increasing_onD [OF inc r(1,2) order_refl] r(3) by simp
    ultimately show ?thesis by (rule mult_nonpos_nonneg)
  next
    assume dec: "decreasing_on ?g lo hi"
    have "0 \<le> ?g lo" using decreasing_onD [OF dec order_refl r(1,2)] r(3) by simp
    moreover have "?g hi \<le> 0" using decreasing_onD [OF dec r(1,2) order_refl] r(3) by simp
    ultimately show ?thesis by (rule mult_nonneg_nonpos)
  qed
next
  let ?g = "\<lambda>T. coverage p T P - 1 / 2"
  assume "?g lo * ?g hi \<le> 0"
  then have signs: "(?g lo \<le> 0 \<and> 0 \<le> ?g hi) \<or> (?g hi \<le> 0 \<and> 0 \<le> ?g lo)"
    by (auto simp: mult_le_0_iff)
  have cont: "continuous_on {lo..hi} ?g"
  proof (rule continuous_at_imp_continuous_on, rule ballI)
    fix x assume "x \<in> {lo..hi}"
    then have "0 < x" using assms(4) by auto
    then show "isCont ?g x" using coverage_isCont_T [OF assms(1-3)] by blast
  qed
  from signs have "\<exists>x. lo \<le> x \<and> x \<le> hi \<and> ?g x = 0"
  proof
    assume "?g lo \<le> 0 \<and> 0 \<le> ?g hi"
    then show ?thesis using IVT' [of ?g lo 0 hi] assms(5) cont by blast
  next
    assume "?g hi \<le> 0 \<and> 0 \<le> ?g lo"
    then show ?thesis using IVT2' [of ?g hi 0 lo] assms(5) cont by blast
  qed
  then show "\<exists>T. lo \<le> T \<and> T \<le> hi \<and> coverage p T P = 1 / 2" by auto
qed

text \<open>
  Claim C2. Over a search interval of positive temperatures and with a positive
  tolerance \<open>\<epsilon>\<close>: at every pressure at which the coverage is \<open>0.5\<close> somewhere in the
  interval, \<open>t50\<close> returns a temperature of the interval at which the coverage is within
  \<open>\<epsilon>\<close> of \<open>0.5\<close> (in particular the search stops); at every other pressure it fails
  with \<open>RootNotBracketed\<close> and returns no temperature.
\<close>

theorem t50_root_or_error:
  assumes "0 \<le> K0 p" and "0 < R_gas p" and "0 \<le> P"
    and "0 < T_lo s" and "T_lo s \<le> T_hi s" and "0 < tolerance s"
  shows "((\<exists>T. T_lo s \<le> T \<and> T \<le> T_hi s \<and> coverage p T P = 1 / 2) \<longrightarrow>
            (\<exists>T. t50 p s P = Some (Inr T) \<and> T_lo s \<le> T \<and> T \<le> T_hi s
                 \<and> \<bar>coverage p T P - 1 / 2\<bar> < tolerance s))
       \<and> (\<not> (\<exists>T. T_lo s \<le> T \<and> T \<le> T_hi s \<and> coverage p T P = 1 / 2) \<longrightarrow>
            t50 p s P = Some (Inl RootNotBracketed))"
proof (intro conjI impI)
  let ?g = "\<lambda>T. coverage p T P - 1 / 2"
  assume cross: "\<exists>T. T_lo s \<le> T \<and> T \<le> T_hi s \<and> coverage p T P = 1 / 2"
  then obtain r where r: "T_lo s \<le> r" "r \<le> T_hi s" "?g r = 0" by auto
  have br: "?g (T_lo s) * ?g (T_hi s) \<le> 0"
    using cross coverage_crossing_iff [OF assms(1-5)] by blast
  have "0 < r" using r(1) assms(4) by linarith
  then have cont: "isCont ?g r" by (rule coverage_isCont_T [OF assms(1-3)])
  from bisect_finds_root [OF coverage_monotone_T [OF assms(1-4)] r cont assms(6)]
  obtain T where T: "bisect ?g (tolerance s) (T_lo s) (T_hi s) = Some T"
    "T_lo s \<le> T" "T \<le> T_hi s" "\<bar>?g T\<bar> < tolerance s" by blast
  have "t50 p s P = Some (Inr T)" using br T(1) by (simp add: t50_def Let_def)
  then show "\<exists>T. t50 p s P = Some (Inr T) \<and> T_lo s \<le> T \<and> T \<le> T_hi s
                 \<and> \<bar>coverage p T P - 1 / 2\<bar> < tolerance s"
    using T by blast
next
  assume "\<not> (\<exists>T. T_lo s \<le> T \<and> T \<le> T_hi s \<and> coverage p T P = 1 / 2)"
  then have "\<not> (coverage p (T_lo s) P - 1 / 2) * (coverage p (T_hi s) P - 1 / 2) \<le> 0"
    using coverage_crossing_iff [OF assms(1-5)] by blast
  then show "t50 p s P = Some (Inl RootNotBracketed)"
    by (simp add: t50_def Let_def)
qed

lemma coverage_half_iff:
  "coverage \<lparr>K0 = exp (- 1), delta_H = - 1, R_gas = 1\<rparr> T 1 = 1 / 2 \<longleftrightarrow> T = 1"
proof -
  let ?k = "exp (- 1) * exp (1 / T) :: real"
  have kpos: "0 < ?k" by simp
  have k: "?k = exp (1 / T - 1)" by (simp add: exp_diff exp_minus field_simps)
  have e1: "coverage \<lparr>K0 = exp (- 1), delta_H = - 1, R_gas = 1\<rparr> T 1 = ?k / (1 + ?k)"
    by (simp add: coverage_def K_eq_def)
  have e2: "?k / (1 + ?k) = 1 / 2 \<longleftrightarrow> ?k = 1" using kpos by (auto simp: field_simps)
  have e3: "?k = 1 \<longleftrightarrow> 1 / T - 1 = 0" unfolding k by simp
  have e4: "1 / T - 1 = 0 \<longleftrightarrow> T = 1" by (auto simp: field_simps)
  show ?thesis unfolding e1 using e2 e3 e4 by blast
qed

theorem t50_root_or_error_witness:
  "(\<exists>T. t50 \<lparr>K0 = exp (- 1), delta_H = - 1, R_gas = 1\<rparr>
           \<lparr>T_lo = 1 / 2, T_hi = 2, tolerance = 1 / 100\<rparr> 1 = Some (Inr T)
        \<and> 1 / 2 \<le> T \<and> T \<le> 2
        \<and> \<bar>coverage \<lparr>K0 = exp (- 1), delta_H = - 1, R_gas = 1\<rparr> T 1 - 1 / 2\<bar> < 1 / 100)
   \<and> t50 \<lparr>K0 = exp (- 1), delta_H = - 1, R_gas = 1\<rparr>
        \<lparr>T_lo = 2, T_hi = 3, tolerance = 1 / 100\<rparr> 1 = Some (Inl RootNotBracketed)"
proof -
  let ?p = "\<lparr>K0 = exp (- 1), delta_H = - 1, R_gas = 1 :: real\<rparr>"
  have a: "\<exists>T. T_lo \<lparr>T_lo = 1 / 2, T_hi = 2, tolerance = 1 / 100\<rparr> \<le> T
              \<and> T \<le> T_hi \<lparr>T_lo = 1 / 2, T_hi = 2, tolerance = 1 / 100\<rparr>
              \<and> coverage ?p T 1 = 1 / 2"
    unfolding coverage_half_iff by simp
  have b: "\<not> (\<exists>T. T_lo \<lparr>T_lo = 2, T_hi = 3, tolerance = 1 / 100\<rparr> \<le> T
              \<and> T \<le> T_hi \<lparr>T_lo = 2, T_hi = 3, tolerance = 1 / 100\<rparr>
              \<and> coverage ?p T 1 = 1 / 2)"
    unfolding coverage_half_iff by simp
  have "\<exists>T. t50 ?p \<lparr>T_lo = 1 / 2, T_hi = 2, tolerance = 1 / 100\<rparr> 1 = Some (Inr T)
        \<and> 1 / 2 \<le> T \<and> T \<le> 2 \<and> \<bar>coverage ?p T 1 - 1 / 2\<bar> < 1 / 100"
    using t50_root_or_error [of ?p 1 "\<lparr>T_lo = 1 / 2, T_hi = 2, tolerance = 1 / 100\<rparr>"] a
    by simp
  moreover have "t50 ?p \<lparr>T_lo = 2, T_hi = 3, tolerance = 1 / 100\<rparr> 1 = Some (Inl RootNotBracketed)"
    using t50_root_or_error [of ?p 1 "\<lparr>T_lo = 2, T_hi = 3, tolerance = 1 / 100\<rparr>"] b
    by simp
  ultimately show ?thesis by blast
qed

end
